theory Spec2Isabelle
  imports Complex_Main "HOL-Library.Multiset"
begin

section \<open>JavaScript values\<close>

text \<open>
  A JavaScript string is a sequence of UTF-16 code units and \<open>length\<close> counts code
  units, so a string is modelled as the list of its code units. \<open>ascii\<close> embeds an
  ASCII literal; other characters are written by their code unit.
\<close>

type_synonym jsstring = "nat list"

definition ascii :: "string \<Rightarrow> jsstring" where
  "ascii s = map of_char s"

text \<open>
  What the modelled code can throw, as values. \<open>Undefined\<close> is the value thrown by
  \<^verbatim>\<open>throw lastError\<close> when no error was ever stored.
\<close>

datatype js_error =
    Error jsstring
  | TypeError
  | SyntaxError
  | RangeError
  | TransportError jsstring
  | Undefined

text \<open>
  The result of \<^verbatim>\<open>JSON.parse\<close>: a dynamically typed value. An object is the list of
  its properties; a property is read with \<open>getProp\<close>, and a missing one is \<open>None\<close>
  (\<^verbatim>\<open>undefined\<close>).
\<close>

datatype json =
    JNull
  | JBool bool
  | JNumber rat
  | JString jsstring
  | JArray "json list"
  | JObject "(jsstring \<times> json) list"

definition getProp :: "jsstring \<Rightarrow> (jsstring \<times> json) list \<Rightarrow> json option" where
  "getProp k kvs = map_of kvs k"

text \<open>\<^verbatim>\<open>value.k\<close> on a value that is an object.\<close>

definition jsonProp :: "jsstring \<Rightarrow> json \<Rightarrow> json option" where
  "jsonProp k v = (case v of JObject kvs \<Rightarrow> getProp k kvs | _ \<Rightarrow> None)"

text \<open>\<^verbatim>\<open>obj.k = v\<close>: overwrite the property in place, or add it at the end.\<close>

fun setProp :: "jsstring \<Rightarrow> json \<Rightarrow> (jsstring \<times> json) list \<Rightarrow> (jsstring \<times> json) list" where
  "setProp k v [] = [(k, v)]"
| "setProp k v ((k', v') # kvs) =
     (if k' = k then (k, v) # kvs else (k', v') # setProp k v kvs)"

text \<open>The decimal digits of a number, as \<^verbatim>\<open>`${i}`\<close> prints it.\<close>

fun showNat :: "nat \<Rightarrow> jsstring" where
  "showNat n = (if n < 10 then [48 + n] else showNat (n div 10) @ [48 + n mod 10])"

text \<open>
  \<^verbatim>\<open>String.prototype.trim\<close> removes white space and line terminators from both ends:
  TAB, LF, VT, FF, CR, SP, NBSP, U+1680, U+2000 to U+200A, U+2028, U+2029, U+202F,
  U+205F, U+3000 and U+FEFF.
\<close>

definition isWhiteSpace :: "nat \<Rightarrow> bool" where
  "isWhiteSpace c \<longleftrightarrow>
     c = 9 \<or> c = 10 \<or> c = 11 \<or> c = 12 \<or> c = 13 \<or> c = 32 \<or> c = 160 \<or> c = 5760
     \<or> (8192 \<le> c \<and> c \<le> 8202) \<or> c = 8232 \<or> c = 8233 \<or> c = 8239 \<or> c = 8287
     \<or> c = 12288 \<or> c = 65279"

definition trim :: "jsstring \<Rightarrow> jsstring" where
  "trim s = rev (dropWhile isWhiteSpace (rev (dropWhile isWhiteSpace s)))"

text \<open>\<^verbatim>\<open>s.includes(t)\<close>: \<open>t\<close> occurs in \<open>s\<close> as a contiguous run.\<close>

definition startsWith :: "jsstring \<Rightarrow> jsstring \<Rightarrow> bool" where
  "startsWith s t \<longleftrightarrow> take (length t) s = t"

fun str_includes :: "jsstring \<Rightarrow> jsstring \<Rightarrow> bool" where
  "str_includes [] t = (t = [])"
| "str_includes (c # cs) t = (startsWith (c # cs) t \<or> str_includes cs t)"

text \<open>\<^verbatim>\<open>a || b\<close> on strings that may be undefined: the empty string is falsy.\<close>

definition orElse :: "jsstring option \<Rightarrow> jsstring \<Rightarrow> jsstring" where
  "orElse a b = (case a of None \<Rightarrow> b | Some s \<Rightarrow> if s = [] then b else s)"

definition truthy :: "jsstring option \<Rightarrow> bool" where
  "truthy a = (case a of None \<Rightarrow> False | Some s \<Rightarrow> s \<noteq> [])"

section \<open>Cleaning the text of a completion\<close>

text \<open>
  \<^verbatim>\<open>res.text?.replace(/```json/gi, '').replace(/```/g, '').trim() || dflt\<close>.
  A global replace deletes the matches found from left to right, each search resuming
  after the previous match. Under the \<^verbatim>\<open>i\<close> flag (without \<^verbatim>\<open>u\<close>) the letters of
  \<^verbatim>\<open>json\<close> match exactly their ASCII upper and lower case forms.
\<close>

definition eq_ci :: "nat \<Rightarrow> nat \<Rightarrow> bool" where
  "eq_ci c p \<longleftrightarrow> c = p \<or> c + 32 = p"

definition fence :: jsstring where
  "fence = [96, 96, 96]"

definition isFenceJson :: "jsstring \<Rightarrow> bool" where
  "isFenceJson s \<longleftrightarrow>
     length s \<ge> 7 \<and> take 3 s = fence \<and> list_all2 eq_ci (take 4 (drop 3 s)) (ascii ''json'')"

fun removeFenceJson :: "jsstring \<Rightarrow> jsstring" where
  "removeFenceJson [] = []"
| "removeFenceJson (c # cs) =
     (if isFenceJson (c # cs) then removeFenceJson (drop 6 cs) else c # removeFenceJson cs)"

fun removeFence :: "jsstring \<Rightarrow> jsstring" where
  "removeFence [] = []"
| "removeFence (c # cs) =
     (if startsWith (c # cs) fence then removeFence (drop 2 cs) else c # removeFence cs)"

definition cleanText :: "jsstring option \<Rightarrow> jsstring \<Rightarrow> jsstring" where
  "cleanText text dflt =
     orElse (map_option (\<lambda>t. trim (removeFence (removeFenceJson t))) text) dflt"


section \<open>The store of note units\<close>

text \<open>The stages of \<^verbatim>\<open>types.ts\<close>, in their order.\<close>

datatype Stage =
    Input
  | Organizing
  | ReviewStructure
  | Designing
  | ReviewPrompt
  | Painting
  | Done

text \<open>
  A note unit, with the fields the code reads and writes. The optional fields
  (\<^verbatim>\<open>structure?\<close>, \<^verbatim>\<open>generatedPrompt?\<close>, \<^verbatim>\<open>finalImage?\<close>, \<^verbatim>\<open>error?\<close>) are \<open>None\<close>
  while absent. The outline kept in \<open>structure\<close> is the dynamically typed value that
  \<^verbatim>\<open>processLeftBrain\<close> returns.
\<close>

record NoteUnit =
  id' :: jsstring
  order' :: nat
  originalText :: jsstring
  stage :: Stage
  isProcessing :: bool
  structure' :: "json option"
  generatedPrompt :: "jsstring option"
  finalImage :: "jsstring option"
  error' :: "jsstring option"

text \<open>
  \<^verbatim>\<open>Partial<NoteUnit>\<close>, restricted to the keys that the batch actions pass: a key
  that is absent from the object literal is \<open>None\<close>.
\<close>

record NoteUpdate =
  u_stage :: "Stage option"
  u_isProcessing :: "bool option"
  u_structure :: "json option"
  u_generatedPrompt :: "jsstring option"
  u_finalImage :: "jsstring option"
  u_error :: "jsstring option"

definition noUpdate :: NoteUpdate where
  "noUpdate = \<lparr>u_stage = None, u_isProcessing = None, u_structure = None,
     u_generatedPrompt = None, u_finalImage = None, u_error = None\<rparr>"

text \<open>\<^verbatim>\<open>{ ...n, ...updates }\<close>\<close>

definition merge :: "NoteUnit \<Rightarrow> NoteUpdate \<Rightarrow> NoteUnit" where
  "merge n u =
     n\<lparr>stage := (case u_stage u of None \<Rightarrow> stage n | Some s \<Rightarrow> s),
       isProcessing := (case u_isProcessing u of None \<Rightarrow> isProcessing n | Some b \<Rightarrow> b),
       structure' := (case u_structure u of None \<Rightarrow> structure' n | Some j \<Rightarrow> Some j),
       generatedPrompt :=
         (case u_generatedPrompt u of None \<Rightarrow> generatedPrompt n | Some p \<Rightarrow> Some p),
       finalImage := (case u_finalImage u of None \<Rightarrow> finalImage n | Some i \<Rightarrow> Some i),
       error' := (case u_error u of None \<Rightarrow> error' n | Some e \<Rightarrow> Some e)\<rparr>"

text \<open>
  \<^verbatim>\<open>
  const updateNote = (id, updates) => {
    setNotes(prev => prev.map(n => n.id === id ? { ...n, ...updates } : n));
  };
  \<close>
\<close>

definition updateNote :: "jsstring \<Rightarrow> NoteUpdate \<Rightarrow> NoteUnit list \<Rightarrow> NoteUnit list" where
  "updateNote i updates prev = map (\<lambda>n. if id' n = i then merge n updates else n) prev"

section \<open>StructureExtractor (processLeftBrain)\<close>

text \<open>
  The outcome of \<^verbatim>\<open>await ai.models.generateContent(...)\<close>: the call rejects with an
  error, or resolves to a response whose \<^verbatim>\<open>text\<close> may be undefined. The outcome is
  an input of the model; the request text has no part in what the code does with it.
\<close>

type_synonym completion = "js_error + jsstring option"

text \<open>\<^verbatim>\<open>{ ...s }\<close>: the own properties of an object, the elements of an array or the
  characters of a string under their indices, nothing for the other values.\<close>

definition spread :: "json \<Rightarrow> (jsstring \<times> json) list" where
  "spread s =
     (case s of
        JObject kvs \<Rightarrow> kvs
      | JArray xs \<Rightarrow> zip (map showNat [0..<length xs]) xs
      | JString t \<Rightarrow> zip (map showNat [0..<length t]) (map (\<lambda>c. JString [c]) t)
      | _ \<Rightarrow> [])"

text \<open>\<^verbatim>\<open>(s, i) => ({ ...s, id: `m${i} ` })\<close>\<close>

definition withId :: "nat \<Rightarrow> json \<Rightarrow> json" where
  "withId i s =
     JObject (setProp (ascii ''id'') (JString (ascii ''m'' @ showNat i @ ascii '' '')) (spread s))"

definition addIds :: "json list \<Rightarrow> json list" where
  "addIds ms = map (\<lambda>(i, s). withId i s) (enumerate 0 ms)"

text \<open>
  \<^verbatim>\<open>json.modules = json.modules?.map(...) || [];\<close>
  Reading a property of \<^verbatim>\<open>null\<close> throws, and so does, in module code, writing a
  property of a number, a boolean or a string. A value of \<^verbatim>\<open>modules\<close> that is neither
  missing, null nor an array has no callable \<^verbatim>\<open>map\<close>. A top-level array receives the
  property \<^verbatim>\<open>modules = []\<close>, which the validation that follows rejects.
\<close>

definition emptyModules :: js_error where
  "emptyModules = Error (ascii ''Empty modules'')"

definition assignModules :: "json \<Rightarrow> js_error + json" where
  "assignModules json =
     (case json of
        JObject kvs \<Rightarrow>
          (case getProp (ascii ''modules'') kvs of
             None \<Rightarrow> Inr (JObject (setProp (ascii ''modules'') (JArray []) kvs))
           | Some JNull \<Rightarrow> Inr (JObject (setProp (ascii ''modules'') (JArray []) kvs))
           | Some (JArray ms) \<Rightarrow>
               Inr (JObject (setProp (ascii ''modules'') (JArray (addIds ms)) kvs))
           | Some _ \<Rightarrow> Inl TypeError)
      | JArray xs \<Rightarrow> Inl emptyModules
      | _ \<Rightarrow> Inl TypeError)"

text \<open>\<^verbatim>\<open>!json.modules || json.modules.length === 0\<close>\<close>

definition modulesMissingOrEmpty :: "json \<Rightarrow> bool" where
  "modulesMissingOrEmpty json =
     (case json of
        JObject kvs \<Rightarrow>
          (case getProp (ascii ''modules'') kvs of
             Some (JArray ms) \<Rightarrow> ms = []
           | _ \<Rightarrow> True)
      | _ \<Rightarrow> True)"

text \<open>
  The body of the \<^verbatim>\<open>try\<close> block. \<open>parse\<close> is \<^verbatim>\<open>JSON.parse\<close>, \<open>None\<close> where it
  throws a SyntaxError.
\<close>

definition leftBrainTry :: "(jsstring \<Rightarrow> json option) \<Rightarrow> completion \<Rightarrow> js_error + json" where
  "leftBrainTry parse res =
     (case res of
        Inl e \<Rightarrow> Inl e
      | Inr text \<Rightarrow>
          (case parse (cleanText text (ascii ''{}'')) of
             None \<Rightarrow> Inl SyntaxError
           | Some json \<Rightarrow>
               (case assignModules json of
                  Inl e \<Rightarrow> Inl e
                | Inr json' \<Rightarrow>
                    if modulesMissingOrEmpty json' then Inl emptyModules else Inr json')))"

definition fallback_title :: jsstring where
  "fallback_title =
     [35299, 26512, 22833, 36133]"

definition fallback_summary :: jsstring where
  "fallback_summary =
     [35831, 37325, 35797, 25110, 26816, 26597, 36755, 20837]"

definition fallback_heading :: jsstring where
  "fallback_heading =
     [38169, 35823]"

definition fallback_content :: jsstring where
  "fallback_content =
     [26080, 27861, 35299, 26512, 20869, 23481, 65292, 35831, 37325, 35797]"

definition fallbackOutline :: json where
  "fallbackOutline =
     JObject
      [(ascii ''title'', JString fallback_title),
       (ascii ''summary_context'', JString fallback_summary),
       (ascii ''visual_theme_keywords'', JString (ascii ''abstract'')),
       (ascii ''modules'',
          JArray
           [JObject
             [(ascii ''id'', JString (ascii ''err1'')),
              (ascii ''heading'', JString fallback_heading),
              (ascii ''content'', JString fallback_content)]])]"

text \<open>The \<^verbatim>\<open>catch\<close> block returns the fallback outline for whatever was thrown.\<close>

definition processLeftBrain :: "(jsstring \<Rightarrow> json option) \<Rightarrow> completion \<Rightarrow> js_error + json" where
  "processLeftBrain parse res =
     (case leftBrainTry parse res of
        Inl e \<Rightarrow> Inr fallbackOutline
      | Inr json \<Rightarrow> Inr json)"

text \<open>
  \<^verbatim>\<open>
  const processNoteStructure = async (note) => {
    updateNote(note.id, { isProcessing: true });
    try {
      const res = await processLeftBrain(ai, note.originalText);
      updateNote(note.id, { structure: res, stage: Stage.ReviewStructure, isProcessing: false });
    } catch (e) {
      updateNote(note.id, { isProcessing: false, error: ... });
    }
  };
  \<close>
  The part before the \<^verbatim>\<open>await\<close> and the part after it are separate steps, since the
  steps of other units run in between.
\<close>

definition structure_failed :: jsstring where
  "structure_failed =
     [32467, 26500, 25972, 29702, 22833, 36133]"

definition structureStart :: "NoteUnit \<Rightarrow> NoteUnit list \<Rightarrow> NoteUnit list" where
  "structureStart note = updateNote (id' note) (noUpdate\<lparr>u_isProcessing := Some True\<rparr>)"

definition structureFinish ::
  "(jsstring \<Rightarrow> json option) \<Rightarrow> completion \<Rightarrow> NoteUnit \<Rightarrow> NoteUnit list \<Rightarrow> NoteUnit list" where
  "structureFinish parse res note =
     (case processLeftBrain parse res of
        Inr r \<Rightarrow>
          updateNote (id' note)
            (noUpdate\<lparr>u_structure := Some r, u_stage := Some ReviewStructure,
               u_isProcessing := Some False\<rparr>)
      | Inl e \<Rightarrow>
          updateNote (id' note)
            (noUpdate\<lparr>u_isProcessing := Some False, u_error := Some structure_failed\<rparr>))"

definition processNoteStructure ::
  "(jsstring \<Rightarrow> json option) \<Rightarrow> completion \<Rightarrow> NoteUnit \<Rightarrow> NoteUnit list \<Rightarrow> NoteUnit list" where
  "processNoteStructure parse res note prev =
     structureFinish parse res note (structureStart note prev)"

text \<open>
  \<^verbatim>\<open>await Promise.all(notes.map(n => processNoteStructure(n)))\<close>: every unit of the
  snapshot \<open>notes\<close> starts, in order; the calls then settle in some order \<open>settled\<close>,
  a rearrangement of \<open>notes\<close>. \<open>reply n\<close> is the outcome of the call made for unit \<open>n\<close>.
\<close>

definition organizeWave ::
  "(jsstring \<Rightarrow> json option) \<Rightarrow> (NoteUnit \<Rightarrow> completion) \<Rightarrow> NoteUnit list \<Rightarrow> NoteUnit list
     \<Rightarrow> NoteUnit list \<Rightarrow> NoteUnit list" where
  "organizeWave parse reply notes settled prev =
     foldl (\<lambda>s n. structureFinish parse (reply n) n s)
       (foldl (\<lambda>s n. structureStart n s) prev notes) settled"

definition handleBatchOrganize ::
  "(jsstring \<Rightarrow> json option) \<Rightarrow> (NoteUnit \<Rightarrow> completion) \<Rightarrow> (NoteUnit list \<Rightarrow> NoteUnit list)
     \<Rightarrow> NoteUnit list \<Rightarrow> NoteUnit list" where
  "handleBatchOrganize parse reply sched notes =
     organizeWave parse reply notes (sched notes) notes"

section \<open>TextSplitter (processSplitBrain, handleSplit)\<close>

text \<open>
  \<^verbatim>\<open>typeof p === 'string' && p.trim().length >= 100\<close>, and the string of a part that
  passes.
\<close>

definition validPart :: "json \<Rightarrow> jsstring option" where
  "validPart p =
     (case p of
        JString s \<Rightarrow> if length (trim s) \<ge> 100 then Some s else None
      | _ \<Rightarrow> None)"

definition splitBrainTry ::
  "(jsstring \<Rightarrow> json option) \<Rightarrow> completion \<Rightarrow> jsstring \<Rightarrow> js_error + jsstring list" where
  "splitBrainTry parse res text =
     (case res of
        Inl e \<Rightarrow> Inl e
      | Inr t \<Rightarrow>
          (case parse (cleanText t (ascii ''[]'')) of
             None \<Rightarrow> Inl SyntaxError
           | Some (JArray parts) \<Rightarrow>
               if length parts > 0 then
                 (let validParts = List.map_filter validPart parts
                  in if length validParts = 0 then Inr [text] else Inr validParts)
               else Inr [text]
           | Some _ \<Rightarrow> Inr [text]))"

definition processSplitBrain ::
  "(jsstring \<Rightarrow> json option) \<Rightarrow> completion \<Rightarrow> jsstring \<Rightarrow> js_error + jsstring list" where
  "processSplitBrain parse res text =
     (case splitBrainTry parse res text of
        Inl e \<Rightarrow> Inr [text]
      | Inr parts \<Rightarrow> Inr parts)"

text \<open>
  \<^verbatim>\<open>
  const newNotes = parts.map((text, i) => ({
    id: uuidv4(), order: i + 1, originalText: text,
    stage: Stage.Organizing, isProcessing: false }));
  \<close>
  \<open>uuid i\<close> is the identifier that \<^verbatim>\<open>uuidv4\<close> returns for the unit at index \<open>i\<close>.
\<close>

definition newNotes :: "(nat \<Rightarrow> jsstring) \<Rightarrow> jsstring list \<Rightarrow> NoteUnit list" where
  "newNotes uuid parts =
     map (\<lambda>(i, text).
            \<lparr>id' = uuid i, order' = i + 1, originalText = text, stage = Organizing,
             isProcessing = False, structure' = None, generatedPrompt = None,
             finalImage = None, error' = None\<rparr>)
         (enumerate 0 parts)"

text \<open>
  \<^verbatim>\<open>handleSplit\<close>, as far as the store of notes goes: it returns at once on blank
  input or without an API key, and otherwise replaces the notes by one unit per part
  of the trimmed input. Its \<^verbatim>\<open>catch\<close> keeps the store as it is.
\<close>

definition handleSplit ::
  "(jsstring \<Rightarrow> json option) \<Rightarrow> completion \<Rightarrow> (nat \<Rightarrow> jsstring) \<Rightarrow> bool \<Rightarrow> jsstring
     \<Rightarrow> NoteUnit list \<Rightarrow> NoteUnit list" where
  "handleSplit parse res uuid hasApiKey rawText notes =
     (if trim rawText = [] then notes
      else if \<not> hasApiKey then notes
      else
        (let inputText = trim rawText
         in case processSplitBrain parse res inputText of
              Inl e \<Rightarrow> notes
            | Inr parts \<Rightarrow> newNotes uuid parts))"


section \<open>PromptSynthesizer (processRightBrain)\<close>

text \<open>
  The statically typed inputs of \<^verbatim>\<open>processRightBrain\<close> (\<^verbatim>\<open>types.ts\<close>). A field of
  the outline that is missing at run time is \<open>None\<close>, and so is a module that is
  null (the code reads it with \<^verbatim>\<open>m?.heading\<close>).
\<close>

record ContentModule =
  module_id :: jsstring
  heading :: "jsstring option"
  content :: "jsstring option"

record LeftBrainData =
  title :: "jsstring option"
  summary_context :: "jsstring option"
  visual_theme_keywords :: "jsstring option"
  modules :: "ContentModule option list option"

record VisualSettings =
  styleId :: jsstring
  colorTheme :: jsstring
  watermark :: jsstring

record style =
  style_id :: jsstring
  name :: jsstring
  emoji :: jsstring
  desc :: jsstring

definition STYLES :: "style list" where
  "STYLES = [
     \<lparr>style_id = ascii ''healing'',
      name = [21487, 29233, 25163, 24080] @ ascii '' (Cute Journal)'',
      emoji = [55357, 56530],
      desc = ascii ''Hand-drawn grid paper background, pastel markers, dense text notes, cute stickers, kawaii aesthetic, study note style''\<rparr>,
     \<lparr>style_id = ascii ''tech'',
      name = [26497, 23458, 34013, 22270] @ ascii '' (Tech Blueprint)'',
      emoji = [55357, 56543],
      desc = ascii ''Dark blue blueprint background, neon cyan lines, dense data visualization, holographic UI elements, futuristic technical schematic''\<rparr>,
     \<lparr>style_id = ascii ''retro'',
      name = [22797, 21476, 28023, 25253] @ ascii '' (Retro Poster)'',
      emoji = [55357, 56560],
      desc = ascii ''Vintage paper texture, bold typography, densely packed layout, pop art halftone patterns, collage style, infographic poster''\<rparr>,
     \<lparr>style_id = ascii ''zen'',
      name = [26032, 20013, 24335] @ ascii '' (Zen Ink)'',
      emoji = [55356, 57227],
      desc = ascii ''White rice paper texture, minimalist ink wash painting, black calligraphy, vertical layout, red seal, intellectual aesthetic''\<rparr>,
     \<lparr>style_id = ascii ''clay'',
      name = ascii ''3D'' @ [31896, 22303] @ ascii '' (3D Clay)'',
      emoji = [55358, 56824],
      desc = ascii ''3D rendered claymorphism, plasticine texture, soft lighting, rounded edges, playful toy-like look, flat text labels on clay surfaces''\<rparr>]"

text \<open>\<^verbatim>\<open>STYLES.find(s => s.id === settings.styleId) || STYLES[0]\<close>\<close>

definition findStyle :: "jsstring \<Rightarrow> style" where
  "findStyle sid =
     (case find (\<lambda>s. style_id s = sid) STYLES of
        Some s \<Rightarrow> s
      | None \<Rightarrow> hd STYLES)"

text \<open>The fixed text of the template literal, between its placeholders.\<close>

definition template0 :: jsstring where
  "template0 =
     ascii ''\<newline>''
     @ ascii ''Role: You are an expert Information Designer specializing in high - clarity educational sketchnotes.Your goal is to visualize complex information into a clean, organized, and readable ''
     @ [34] @ ascii ''Visual Note'' @ [34] @ ascii ''.\<newline>'' @ ascii ''\<newline>''
     @ ascii ''# VISUAL STYLE: [User Selection: ''"

definition template1 :: jsstring where
  "template1 =
     ascii '']\<newline>'' @ ascii ''  - Core Aesthetic: ''"

definition template2 :: jsstring where
  "template2 =
     ascii ''. Flat Vector Illustration style.Clean lines, high resolution, no blurring.\<newline>''
     @ ascii ''- Background: Light beige(#F5F5DC) or style - appropriate light background with a faint dot grid pattern.CLEAN background, no heavy textures that interfere with text.\<newline>''
     @ ascii ''- Color Palette: ''"

definition template3 :: jsstring where
  "template3 =
     ascii '' + Dark Charcoal(#333333) for all text.\<newline>''
     @ ascii ''- Decorations: Simple 2D icons(flat style), subtle doodles related to '' @ [34]"

definition template4 :: jsstring where
  "template4 =
     [34] @ ascii '' scattered * around * text boxes, not * behind * text.\<newline>''
     @ ascii ''\<newline>''
     @ ascii ''# CRITICAL TEXT RENDERING RULES(Priority Level: MAX)\<newline>''
     @ ascii ''1. Font Strategy(The Success Secret): Use a font style resembling '' @ [34]
     @ ascii ''Bold Sans-serif'' @ [34] @ ascii '' or '' @ [34] @ ascii ''Clean Handwriting''
     @ [34] @ ascii ''(like '' @ [26999, 20307]
     @ ascii '' / Heiti).Absolutely NO cursive, calligraphy, or messy strokes.Characters must be blocky and distinct.\<newline>''
     @ ascii ''2. Text Container Strategy: All main text blocks MUST be placed inside ** Solid Color Text Bubbles or Rectangular Boxes ** (White or very light pastel fill) to ensure maximum contrast against the background dots.\<newline>''
     @ ascii ''3. Clarity Over Style: Legibility is the #1 priority.Text characters must be sharp, high - contrast, and fully formed.\<newline>''
     @ ascii ''4. Language: Simplified Chinese('' @ [31616, 20307, 20013, 25991]
     @ ascii '').Check for correct stroke counts.NO Japanese Kana.\<newline>''
     @ ascii ''5. Hierarchy(Relative Sizes):\<newline>''
     @ ascii ''- Title: Very large, decorative, centered at top.\<newline>''
     @ ascii ''    - Headers(1., 2., ...): Large, bold.\<newline>''
     @ ascii ''    - Body Text: Medium size, clear bullet points.\<newline>''
     @ ascii ''\<newline>'' @ ascii ''# LAYOUT & COMPOSITION\<newline>''
     @ ascii ''  - Grid System: Use a modular layout(like a bento box).Divide the canvas into 5 clear, non - overlapping sections for the main points, plus a title area and footer.\<newline>''
     @ ascii ''- Flow: Use cute, hand - drawn dotted arrows to guide the eye from section 1 to 5 logically.\<newline>''
     @ ascii ''\<newline>'' @ ascii ''# OUTPUT SPECS\<newline>''
     @ ascii ''  - Ratio: 3: 4(Vertical Long Chart)\<newline>''
     @ ascii ''    - Resolution: High Definition(Vector - like sharpness)\<newline>''
     @ ascii ''\<newline>''
     @ ascii ''# VISUALIZATION CONTENT(Render exactly as structured below):\<newline>''
     @ ascii ''Title: '' @ [34]"

definition template5 :: jsstring where
  "template5 =
     [34] @ ascii ''\<newline>'' @ ascii ''Subtitle: '' @ [34]"

definition template6 :: jsstring where
  "template6 =
     [34] @ ascii ''\<newline>'' @ ascii ''Modules:\<newline>''"

definition template7 :: jsstring where
  "template7 =
     ascii ''\<newline>'' @ ascii ''\<newline>'' @ ascii ''Footer Watermark: '' @ [34]"

definition template8 :: jsstring where
  "template8 =
     [34] @ ascii ''\<newline>'' @ ascii ''  ''"

definition untitled :: jsstring where
  "untitled =
     [26410, 21629, 21517, 31508, 35760]"

definition default_palette :: jsstring where
  "default_palette =
     ascii ''Pastel low-saturation colors (Macaron Blue, Cream Yellow, Soft Pink)''"

definition noData :: jsstring where
  "noData = ascii ''Error: No data provided''"

text \<open>\<^verbatim>\<open>xs.join(sep)\<close>\<close>

fun join :: "jsstring \<Rightarrow> jsstring list \<Rightarrow> jsstring" where
  "join sep [] = []"
| "join sep [x] = x"
| "join sep (x # y # ys) = x @ sep @ join sep (y # ys)"

text \<open>
  \<^verbatim>\<open>(m, i) => `${i + 1}. Heading: "${m?.heading || ''}"\n   Content: "${m?.content || ''}"`\<close>
\<close>

definition moduleLine :: "nat \<times> ContentModule option \<Rightarrow> jsstring" where
  "moduleLine im =
     (case im of (i, m) \<Rightarrow>
        showNat (i + 1) @ ascii ''. Heading: '' @ [34] @ orElse (Option.bind m heading) []
        @ [34] @ ascii ''\<newline>   Content: '' @ [34] @ orElse (Option.bind m content) []
        @ [34])"

definition processRightBrain :: "LeftBrainData option \<Rightarrow> VisualSettings \<Rightarrow> jsstring" where
  "processRightBrain data settings =
     (case data of
        None \<Rightarrow> noData
      | Some d \<Rightarrow>
          (let styleObj = findStyle (styleId settings);
               title' = orElse (title d) untitled;
               summary = orElse (summary_context d) [];
               keywords = orElse (visual_theme_keywords d) (ascii ''abstract concepts'');
               modules' = (case modules d of None \<Rightarrow> [] | Some ms \<Rightarrow> ms)
           in trim
               (template0 @ name styleObj @ template1 @ desc styleObj @ template2
                @ (if colorTheme settings \<noteq> [] then colorTheme settings else default_palette)
                @ template3 @ keywords @ template4 @ title' @ template5 @ summary @ template6
                @ join (ascii ''\<newline>'') (map moduleLine (enumerate 0 modules'))
                @ template7 @ watermark settings @ template8)))"

section \<open>ImageRenderer (processHand)\<close>

text \<open>
  The configuration read from the environment, and the platform's
  \<^verbatim>\<open>String.prototype.toLowerCase\<close>, which the model takes as it is.
\<close>

record config =
  env_IMAGE_MODEL :: "jsstring option"
  env_API_KEY :: "jsstring option"
  toLowerCase :: "jsstring \<Rightarrow> jsstring"

text \<open>\<^verbatim>\<open>const IMAGE_MODEL = process.env.IMAGE_MODEL || 'gemini-3-pro-image-preview';\<close>\<close>

definition IMAGE_MODEL :: "config \<Rightarrow> jsstring" where
  "IMAGE_MODEL cfg = orElse (env_IMAGE_MODEL cfg) (ascii ''gemini-3-pro-image-preview'')"

text \<open>The response of the multimodal completion, as far as the code reads it.\<close>

datatype inline_data = InlineData (inline_bytes: "jsstring option") (inline_mimeType: "jsstring option")

datatype part = Part (inlineData: "inline_data option")

datatype candidate_content = Content (parts: "part option list option")

datatype candidate = Candidate (candidate_content: "candidate_content option")

datatype gen_response = GenResponse (candidates: "candidate option list option")

text \<open>
  \<^verbatim>\<open>
  for (const part of parts) {
    if (part.inlineData?.data) {
      return { data: part.inlineData.data, mimeType: part.inlineData.mimeType || 'image/png' };
    }
  }
  \<close>
  A part that is null makes \<^verbatim>\<open>part.inlineData\<close> throw.
\<close>

fun scanParts :: "part option list \<Rightarrow> js_error + (jsstring \<times> jsstring) option" where
  "scanParts [] = Inr None"
| "scanParts (None # ps) = Inl TypeError"
| "scanParts (Some p # ps) =
     (case inlineData p of
        None \<Rightarrow> scanParts ps
      | Some d \<Rightarrow>
          if truthy (inline_bytes d)
          then Inr (Some (the (inline_bytes d), orElse (inline_mimeType d) (ascii ''image/png'')))
          else scanParts ps)"

text \<open>\<^verbatim>\<open>cand?.content?.parts || []\<close>\<close>

definition partsOf :: "candidate option \<Rightarrow> part option list" where
  "partsOf cand =
     (case Option.bind (Option.bind cand candidate_content) parts of
        None \<Rightarrow> []
      | Some ps \<Rightarrow> ps)"

fun scanCandidates :: "candidate option list \<Rightarrow> js_error + (jsstring \<times> jsstring) option" where
  "scanCandidates [] = Inr None"
| "scanCandidates (cand # cands) =
     (case scanParts (partsOf cand) of
        Inl e \<Rightarrow> Inl e
      | Inr (Some img) \<Rightarrow> Inr (Some img)
      | Inr None \<Rightarrow> scanCandidates cands)"

definition extractInlineImage :: "gen_response option \<Rightarrow> js_error + (jsstring \<times> jsstring) option" where
  "extractInlineImage response =
     scanCandidates (case Option.bind response candidates of None \<Rightarrow> [] | Some cs \<Rightarrow> cs)"

text \<open>\<^verbatim>\<open>`data:${mimeType};base64,${data}`\<close>\<close>

definition dataUri :: "jsstring \<Rightarrow> jsstring \<Rightarrow> jsstring" where
  "dataUri mimeType bytes = ascii ''data:'' @ mimeType @ ascii '';base64,'' @ bytes"

text \<open>The response of the image-prediction endpoint, as far as \<^verbatim>\<open>fetchImagen\<close> reads it.\<close>

record prediction =
  bytesBase64Encoded :: "jsstring option"
  base64Data :: "jsstring option"
  pred_data :: "jsstring option"
  pred_mimeType :: "jsstring option"

datatype predict_body = PredictBody (predictions: "prediction option list option")

record http_response =
  ok :: bool
  status :: nat
  bodyText :: "js_error + jsstring"
  bodyJson :: "js_error + predict_body option"

text \<open>\<^verbatim>\<open>json?.predictions?.[0]\<close>\<close>

definition firstPrediction :: "predict_body option \<Rightarrow> prediction option" where
  "firstPrediction json =
     (case Option.bind json predictions of
        None \<Rightarrow> None
      | Some [] \<Rightarrow> None
      | Some (p # ps) \<Rightarrow> p)"

text \<open>The backend that an attempt called, if it called one.\<close>

datatype backend = GenerateContent | Predict

text \<open>
  \<^verbatim>\<open>fetchImagen\<close>: \<open>fetched\<close> is the outcome of \<^verbatim>\<open>await fetch(url, ...)\<close>. Without an
  API key it throws before any request is made.
\<close>

definition fetchImagen ::
  "jsstring option \<Rightarrow> js_error + http_response \<Rightarrow> (js_error + jsstring) \<times> backend list" where
  "fetchImagen apiKey fetched =
     (if \<not> truthy apiKey then (Inl (Error (ascii ''Missing API_KEY for Imagen request'')), [])
      else
        (case fetched of
           Inl e \<Rightarrow> Inl e
         | Inr res \<Rightarrow>
             if \<not> ok res then
               (case bodyText res of
                  Inl e \<Rightarrow> Inl e
                | Inr errText \<Rightarrow>
                    Inl (Error (ascii ''Imagen HTTP '' @ showNat (status res) @ ascii '': '' @ errText)))
             else
               (case bodyJson res of
                  Inl e \<Rightarrow> Inl e
                | Inr json \<Rightarrow>
                    (let img = firstPrediction json;
                         bytes = orElse (Option.bind img bytesBase64Encoded)
                                   (orElse (Option.bind img base64Data)
                                      (orElse (Option.bind img pred_data) []));
                         mimeType = orElse (Option.bind img pred_mimeType) (ascii ''image/png'')
                     in if bytes = [] then
                          Inl (Error (ascii ''Imagen response missing image data''))
                        else Inr (dataUri mimeType bytes))),
         [Predict]))"

text \<open>
  What the two backends answer to one attempt. Only the answer of the backend that
  the attempt calls is read.
\<close>

record replies =
  generated :: "js_error + gen_response option"
  fetched :: "js_error + http_response"

text \<open>The body of the \<^verbatim>\<open>try\<close> block of one attempt.\<close>

definition attempt :: "config \<Rightarrow> replies \<Rightarrow> (js_error + jsstring) \<times> backend list" where
  "attempt cfg r =
     (if str_includes (toLowerCase cfg (IMAGE_MODEL cfg)) (ascii ''gemini'') then
        (case generated r of
           Inl e \<Rightarrow> Inl e
         | Inr res \<Rightarrow>
             (case extractInlineImage res of
                Inl e \<Rightarrow> Inl e
              | Inr None \<Rightarrow> Inl (Error (ascii ''No inline image returned''))
              | Inr (Some (bytes, mimeType)) \<Rightarrow> Inr (dataUri mimeType bytes)),
         [GenerateContent])
      else fetchImagen (env_API_KEY cfg) (fetched r))"

text \<open>
  What \<^verbatim>\<open>processHand\<close> does, in order: the entry of attempt \<open>i\<close> (from 0), a call of
  a backend, a \<^verbatim>\<open>setTimeout\<close> wait of so many milliseconds.
\<close>

datatype hand_event = Attempt nat | Call backend | Sleep nat

definition maxRetries :: nat where
  "maxRetries = 3"

text \<open>
  \<^verbatim>\<open>
  for (let i = 0; i < maxRetries; i++) {
    try { ... return dataUri; }
    catch (e) {
      lastError = e;
      await new Promise(resolve => setTimeout(resolve, 1000 * (i + 1)));
    }
  }
  throw lastError;
  \<close>
  \<open>reply i\<close> is what the backends answer to attempt \<open>i\<close>.
\<close>

function processHandLoop ::
  "config \<Rightarrow> (nat \<Rightarrow> replies) \<Rightarrow> nat \<Rightarrow> js_error \<Rightarrow> (js_error + jsstring) \<times> hand_event list" where
  "processHandLoop cfg reply i lastError =
     (if i < maxRetries then
        (case attempt cfg (reply i) of
           (Inr uri, calls) \<Rightarrow> (Inr uri, Attempt i # map Call calls)
         | (Inl e, calls) \<Rightarrow>
             (case processHandLoop cfg reply (i + 1) e of
                (result, events) \<Rightarrow>
                  (result, Attempt i # map Call calls @ Sleep (1000 * (i + 1)) # events)))
      else (Inl lastError, []))"
  by pat_completeness auto
termination
  by (relation "measure (\<lambda>(cfg, reply, i, lastError). maxRetries - i)") auto

declare processHandLoop.simps [simp del]

definition processHand :: "config \<Rightarrow> (nat \<Rightarrow> replies) \<Rightarrow> (js_error + jsstring) \<times> hand_event list" where
  "processHand cfg reply = processHandLoop cfg reply 0 Undefined"

section \<open>Cutting a batch into chunks\<close>

text \<open>
  \<^verbatim>\<open>arr.slice(start, end)\<close> for indices \<open>0 \<le> start \<le> end\<close>: the elements from
  \<open>start\<close> up to, not including, \<open>end\<close>, clamped to the end of the array.
\<close>

definition slice :: "'a list \<Rightarrow> nat \<Rightarrow> nat \<Rightarrow> 'a list" where
  "slice arr start end' = take (end' - start) (drop start arr)"

text \<open>
  \<^verbatim>\<open>Math.ceil(arr.length / size)\<close>. Division by zero gives \<open>Infinity\<close> (an invalid
  array length) for a non-empty array and \<open>NaN\<close> (read as length 0) for an empty one.
\<close>

definition ceil_div :: "nat \<Rightarrow> nat \<Rightarrow> js_error + nat" where
  "ceil_div n sz =
     (if sz = 0 then (if n = 0 then Inr 0 else Inl RangeError)
      else Inr ((n + sz - 1) div sz))"

text \<open>
  \<^verbatim>\<open>
  const chunk = (arr, size) =>
    Array.from({ length: Math.ceil(arr.length / size) }, (v, i) =>
      arr.slice(i * size, i * size + size));
  \<close>
\<close>

definition chunk :: "'a list \<Rightarrow> nat \<Rightarrow> js_error + 'a list list" where
  "chunk arr sz =
     (case ceil_div (length arr) sz of
        Inl e \<Rightarrow> Inl e
      | Inr k \<Rightarrow> Inr (map (\<lambda>i. slice arr (i * sz) (i * sz + sz)) [0..<k]))"

section \<open>BatchScheduler, rendering phase (handleBatchPaint)\<close>

text \<open>
  \<^verbatim>\<open>
  const paintNote = async (note) => {
    if (!note.generatedPrompt) return;
    updateNote(note.id, { isProcessing: true });
    try {
      const img = await processHand(ai, note.generatedPrompt, visualSettings.styleId);
      updateNote(note.id, { finalImage: img, stage: Stage.Done, isProcessing: false });
    } catch (e) {
      updateNote(note.id, { isProcessing: false, error: ... });
    }
  };
  \<close>
  As for structuring, the part before the \<^verbatim>\<open>await\<close> and the part after it are
  separate steps. \<open>reply n\<close> is what the backends answer to the attempts made for
  unit \<open>n\<close>.
\<close>

definition paint_failed :: jsstring where
  "paint_failed =
     [32472, 21046, 22833, 36133]"

definition paints :: "NoteUnit \<Rightarrow> bool" where
  "paints note = truthy (generatedPrompt note)"

definition paintStart :: "NoteUnit \<Rightarrow> NoteUnit list \<Rightarrow> NoteUnit list" where
  "paintStart note prev =
     (if \<not> paints note then prev
      else updateNote (id' note) (noUpdate\<lparr>u_isProcessing := Some True\<rparr>) prev)"

definition paintFinish ::
  "config \<Rightarrow> (nat \<Rightarrow> replies) \<Rightarrow> NoteUnit \<Rightarrow> NoteUnit list \<Rightarrow> NoteUnit list" where
  "paintFinish cfg reply note prev =
     (if \<not> paints note then prev
      else
        (case fst (processHand cfg reply) of
           Inr img \<Rightarrow>
             updateNote (id' note)
               (noUpdate\<lparr>u_finalImage := Some img, u_stage := Some Done,
                  u_isProcessing := Some False\<rparr>) prev
         | Inl e \<Rightarrow>
             updateNote (id' note)
               (noUpdate\<lparr>u_isProcessing := Some False, u_error := Some paint_failed\<rparr>) prev))"

text \<open>
  The moments at which a unit's rendering call begins and ends, by the unit's id.
\<close>

datatype call_event = Started jsstring | Settled jsstring

definition calls :: "NoteUnit list \<Rightarrow> jsstring list" where
  "calls c = map id' (filter paints c)"

text \<open>
  \<^verbatim>\<open>await Promise.all(c.map(n => paintNote(n)))\<close>: the units of the chunk start in
  order, their calls settle in some order \<open>sched c\<close>, a rearrangement of the chunk, and
  only then does the loop go on.
\<close>

definition paintWave ::
  "config \<Rightarrow> (NoteUnit \<Rightarrow> nat \<Rightarrow> replies) \<Rightarrow> (NoteUnit list \<Rightarrow> NoteUnit list) \<Rightarrow> NoteUnit list
     \<Rightarrow> NoteUnit list \<times> call_event list \<Rightarrow> NoteUnit list \<times> call_event list" where
  "paintWave cfg reply sched c st =
     (case st of (prev, evs) \<Rightarrow>
        (foldl (\<lambda>s n. paintFinish cfg (reply n) n s) (foldl (\<lambda>s n. paintStart n s) prev c)
           (sched c),
         evs @ map Started (calls c) @ map Settled (calls (sched c))))"

text \<open>
  \<^verbatim>\<open>
  const chunks = chunk(notes, 3);
  for (const c of chunks) {
    await Promise.all(c.map(n => paintNote(n)));
  }
  \<close>
  Without an API key \<^verbatim>\<open>handleBatchPaint\<close> returns before anything else.
\<close>

definition handleBatchPaint ::
  "config \<Rightarrow> (NoteUnit \<Rightarrow> nat \<Rightarrow> replies) \<Rightarrow> (NoteUnit list \<Rightarrow> NoteUnit list) \<Rightarrow> bool
     \<Rightarrow> NoteUnit list \<Rightarrow> js_error + NoteUnit list \<times> call_event list" where
  "handleBatchPaint cfg reply sched hasApiKey notes =
     (if \<not> hasApiKey then Inr (notes, [])
      else
        (case chunk notes 3 of
           Inl e \<Rightarrow> Inl e
         | Inr chunks \<Rightarrow> Inr (foldl (\<lambda>st c. paintWave cfg reply sched c st) (notes, []) chunks)))"

text \<open>
  The number of rendering calls in flight before each event of a log and after the
  last one.
\<close>

fun inFlight :: "nat \<Rightarrow> call_event list \<Rightarrow> nat list" where
  "inFlight k [] = [k]"
| "inFlight k (Started i # es) = k # inFlight (k + 1) es"
| "inFlight k (Settled i # es) = k # inFlight (k - 1) es"

section \<open>Sample inputs\<close>

text \<open>
  Concrete inputs on which the statements below are run. \<open>asciiLower\<close> is
  \<^verbatim>\<open>toLowerCase\<close> on strings of ASCII characters.
\<close>

definition asciiLower :: "jsstring \<Rightarrow> jsstring" where
  "asciiLower s = map (\<lambda>c. if 65 \<le> c \<and> c \<le> 90 then c + 32 else c) s"

definition sampleConfig :: config where
  "sampleConfig = \<lparr>env_IMAGE_MODEL = None, env_API_KEY = None, toLowerCase = asciiLower\<rparr>"

definition sampleNote :: "nat \<Rightarrow> NoteUnit" where
  "sampleNote i =
     \<lparr>id' = ascii ''n'' @ showNat i, order' = i, originalText = ascii ''text'',
      stage = ReviewPrompt, isProcessing = False, structure' = None,
      generatedPrompt = Some (ascii ''prompt''), finalImage = None, error' = None\<rparr>"

definition sampleNotes :: "NoteUnit list" where
  "sampleNotes = map sampleNote [1, 2, 3, 4, 5, 6, 7]"

text \<open>Every call of the multimodal backend is refused.\<close>

definition refused :: "nat \<Rightarrow> replies" where
  "refused i =
     \<lparr>generated = Inl (TransportError (ascii ''refused '' @ showNat i)),
      fetched = Inl (TransportError (ascii ''refused '' @ showNat i))\<rparr>"

definition sampleReply :: "NoteUnit \<Rightarrow> nat \<Rightarrow> replies" where
  "sampleReply n = refused"

text \<open>
  \<^verbatim>\<open>JSON.parse\<close> on the texts that the examples parse: the empty object, an array
  of two strings of 100 characters each, and an array holding the string \<^verbatim>\<open>abc\<close>. It
  is applied to no other JSON text; the text \<^verbatim>\<open>not json\<close> is not JSON.
\<close>

definition segmentX :: jsstring where
  "segmentX = replicate 100 120"

definition segmentY :: jsstring where
  "segmentY = replicate 100 121"

definition twoSegmentsText :: jsstring where
  "twoSegmentsText =
     ascii ''['' @ [34] @ segmentX @ [34] @ ascii '','' @ [34] @ segmentY @ [34] @ ascii '']''"

definition echoText :: jsstring where
  "echoText = ascii ''['' @ [34] @ ascii ''abc'' @ [34] @ ascii '']''"

definition sampleParse :: "jsstring \<Rightarrow> json option" where
  "sampleParse s =
     (if s = ascii ''{}'' then Some (JObject [])
      else if s = twoSegmentsText then Some (JArray [JString segmentX, JString segmentY])
      else if s = echoText then Some (JArray [JString (ascii ''abc'')])
      else None)"

text \<open>A response of the multimodal backend that carries one inline image.\<close>

definition inlineResponse :: gen_response where
  "inlineResponse =
     GenResponse (Some [Some (Candidate (Some (Content (Some
       [Some (Part None), Some (Part (Some (InlineData (Some (ascii ''QUJD'')) None)))]))))])"

definition inlineImage :: "nat \<Rightarrow> replies" where
  "inlineImage i = \<lparr>generated = Inr (Some inlineResponse), fetched = Inl (TransportError [])\<rparr>"

text \<open>The first unit's calls are refused, the others get an image at once.\<close>

definition mixedReply :: "NoteUnit \<Rightarrow> nat \<Rightarrow> replies" where
  "mixedReply n = (if id' n = ascii ''n1'' then refused else inlineImage)"

definition threeNotes :: "NoteUnit list" where
  "threeNotes = [sampleNote 1, sampleNote 2, sampleNote 3]"

text \<open>The first unit's structuring call fails, the second answers text that is not
  JSON, the third answers nothing.\<close>

definition mixedAnswer :: "NoteUnit \<Rightarrow> completion" where
  "mixedAnswer n =
     (if id' n = ascii ''n1'' then Inl (TransportError (ascii ''network''))
      else if id' n = ascii ''n2'' then Inr (Some (ascii ''not json''))
      else Inr None)"

text \<open>
  A configuration whose model id lacks the multimodal marker, and a response of the
  prediction endpoint that carries one image.
\<close>

definition predictConfig :: config where
  "predictConfig =
     \<lparr>env_IMAGE_MODEL = Some (ascii ''Imagen-4.0-generate''), env_API_KEY = Some (ascii ''key''),
      toLowerCase = asciiLower\<rparr>"

definition predicted :: "nat \<Rightarrow> replies" where
  "predicted i =
     \<lparr>generated = Inr (Some inlineResponse),
      fetched =
        Inr \<lparr>ok = True, status = 200, bodyText = Inr [],
             bodyJson = Inr (Some (PredictBody (Some
               [Some \<lparr>bytesBase64Encoded = Some (ascii ''REVG''), base64Data = None,
                       pred_data = None, pred_mimeType = None\<rparr>])))\<rparr>\<rparr>"

text \<open>The first call is refused, the second returns an image.\<close>

definition secondSucceeds :: "nat \<Rightarrow> replies" where
  "secondSucceeds i = (if i = 0 then refused i else inlineImage i)"

text \<open>An outline and settings for the prompt; the style id \<^verbatim>\<open>neon\<close> names no style.\<close>

definition sampleOutline :: LeftBrainData where
  "sampleOutline =
     \<lparr>title = Some (ascii ''Tides''), summary_context = Some (ascii ''Why the sea rises''),
      visual_theme_keywords = Some (ascii ''ocean, moon''),
      modules = Some
        [Some \<lparr>module_id = ascii ''m0 '', heading = Some (ascii ''Moon''),
                content = Some (ascii ''Gravity pulls water'')\<rparr>,
         None]\<rparr>"

definition sampleSettings :: VisualSettings where
  "sampleSettings = \<lparr>styleId = ascii ''neon'', colorTheme = [], watermark = ascii ''SoulNote''\<rparr>"

section \<open>Proofs: chunks and the rendering schedule\<close>

lemma slice_chunk: "slice arr (i * sz) (i * sz + sz) = take sz (drop (i * sz) arr)"
  by (simp add: slice_def)

lemma concat_slices:
  "concat (map (\<lambda>i. take sz (drop (i * sz) arr)) [0..<k]) = take (k * sz) arr"
proof (induction k)
  case 0
  show ?case by simp
next
  case (Suc k)
  have "take (k * sz) arr @ take sz (drop (k * sz) arr) = take (k * sz + sz) arr"
    by (simp add: take_add)
  with Suc show ?case by (simp add: add.commute)
qed

lemma chunk_three:
  "chunk arr 3 = Inr (map (\<lambda>i. take 3 (drop (i * 3) arr)) [0..<(length arr + 2) div 3])"
  by (simp add: chunk_def ceil_div_def slice_chunk)

lemma chunk_three_concat:
  assumes "chunk arr 3 = Inr cs"
  shows "concat cs = arr"
proof -
  have "length arr \<le> (length arr + 2) div 3 * 3" by arith
  with assms show ?thesis
    by (auto simp add: chunk_three concat_slices)
qed

lemma chunk_three_length:
  assumes "chunk arr 3 = Inr cs"
  shows "length cs = (length arr + 2) div 3"
  using assms by (auto simp add: chunk_three)

lemma chunk_three_nth:
  assumes "chunk arr 3 = Inr cs" and "i < length cs"
  shows "cs ! i = take 3 (drop (i * 3) arr)"
  using assms by (auto simp add: chunk_three)

lemma chunk_three_nth_length:
  assumes "chunk arr 3 = Inr cs" and "i < length cs"
  shows "length (cs ! i) = min 3 (length arr - i * 3)"
  using assms by (simp add: chunk_three_nth)

lemma chunk_three_bounds:
  assumes "chunk arr 3 = Inr cs" and "c \<in> set cs"
  shows "0 < length c \<and> length c \<le> 3"
proof -
  from assms(2) obtain i where i: "i < length cs" and c: "c = cs ! i"
    by (auto simp add: in_set_conv_nth)
  from assms(1) i have "i < (length arr + 2) div 3"
    by (simp add: chunk_three_length)
  then have "i * 3 < length arr" by arith
  with chunk_three_nth_length [OF assms(1) i] c show ?thesis by simp
qed

lemma chunk_three_full:
  assumes "chunk arr 3 = Inr cs" and "Suc i < length cs"
  shows "length (cs ! i) = 3"
proof -
  from assms have "Suc i < (length arr + 2) div 3"
    by (simp add: chunk_three_length)
  then have "i * 3 + 3 \<le> length arr" by arith
  moreover from assms have "i < length cs" by simp
  ultimately show ?thesis
    using chunk_three_nth_length [OF assms(1)] by simp
qed

subsection \<open>The log of a rendering batch\<close>

lemma inFlight_started:
  "set (inFlight k (map Started xs @ es)) = {k..<k + length xs} \<union> set (inFlight (k + length xs) es)"
proof (induction xs arbitrary: k)
  case Nil
  show ?case by simp
next
  case (Cons x xs)
  have "{k..<k + length (x # xs)} = insert k {k + 1..<k + 1 + length xs}"
    by auto
  with Cons [of "k + 1"] show ?case by simp
qed

lemma inFlight_settled:
  "set (inFlight k (map Settled xs @ es)) \<subseteq> {..k} \<union> set (inFlight (k - length xs) es)"
proof (induction xs arbitrary: k)
  case Nil
  show ?case by simp
next
  case (Cons x xs)
  have "{..k - 1} \<subseteq> {..k}" by auto
  with Cons [of "k - 1"] show ?case by auto
qed

lemma inFlight_wave:
  assumes "length ys = length xs" and "length xs \<le> m" and "\<forall>k \<in> set (inFlight 0 es). k \<le> m"
  shows "\<forall>k \<in> set (inFlight 0 (map Started xs @ map Settled ys @ es)). k \<le> m"
proof
  fix k
  assume "k \<in> set (inFlight 0 (map Started xs @ map Settled ys @ es))"
  then have "k < length xs \<or> k \<in> set (inFlight (length xs) (map Settled ys @ es))"
    by (auto simp add: inFlight_started)
  then show "k \<le> m"
  proof
    assume "k < length xs"
    with assms(2) show ?thesis by simp
  next
    assume "k \<in> set (inFlight (length xs) (map Settled ys @ es))"
    with inFlight_settled [of "length xs" ys es]
    have "k \<le> length xs \<or> k \<in> set (inFlight (length xs - length ys) es)"
      by auto
    with assms show ?thesis by auto
  qed
qed

lemma inFlight_waves:
  assumes "\<forall>c \<in> set cs. length (g c) = length (f c) \<and> length (f c) \<le> m"
  shows "\<forall>k \<in> set (inFlight 0 (concat (map (\<lambda>c. map Started (f c) @ map Settled (g c)) cs))). k \<le> m"
  using assms
proof (induction cs)
  case Nil
  show ?case by simp
next
  case (Cons c cs)
  then have rest: "\<forall>k \<in> set (inFlight 0 (concat (map (\<lambda>c. map Started (f c) @ map Settled (g c)) cs))). k \<le> m"
    by simp
  from Cons.prems have "length (g c) = length (f c)" and "length (f c) \<le> m"
    by simp_all
  from inFlight_wave [OF this rest] show ?case by simp
qed

lemma calls_rearranged:
  assumes "mset (sched c) = mset c"
  shows "length (calls (sched c)) = length (calls c)"
proof -
  have "mset (filter paints (sched c)) = mset (filter paints c)"
    using assms by (metis mset_filter)
  then have "length (filter paints (sched c)) = length (filter paints c)"
    by (rule mset_eq_length)
  then show ?thesis by (simp add: calls_def)
qed

lemma calls_length: "length (calls c) \<le> length c"
  by (simp add: calls_def)

lemma paintWaves_log:
  "snd (foldl (\<lambda>st c. paintWave cfg reply sched c st) (prev, evs) cs)
     = evs @ concat (map (\<lambda>c. map Started (calls c) @ map Settled (calls (sched c))) cs)"
  by (induction cs arbitrary: prev evs) (simp_all add: paintWave_def)

lemma handleBatchPaint_log:
  assumes "handleBatchPaint cfg reply sched True notes = Inr (st, evs)"
    and "chunk notes 3 = Inr cs"
  shows "evs = concat (map (\<lambda>c. map Started (calls c) @ map Settled (calls (sched c))) cs)"
proof -
  from assms have "(st, evs) = foldl (\<lambda>st c. paintWave cfg reply sched c st) (notes, []) cs"
    by (simp add: handleBatchPaint_def)
  then have "evs = snd (foldl (\<lambda>st c. paintWave cfg reply sched c st) (notes, []) cs)"
    by (metis snd_conv)
  then show ?thesis by (simp add: paintWaves_log)
qed

lemma handleBatchPaint_peak:
  assumes "handleBatchPaint cfg reply sched True notes = Inr (st, evs)"
    and "\<forall>c. mset (sched c) = mset c"
  shows "\<forall>k \<in> set (inFlight 0 evs). k \<le> 3"
proof -
  obtain cs where cs: "chunk notes 3 = Inr cs" by (simp add: chunk_three)
  have "\<forall>c \<in> set cs. length (calls (sched c)) = length (calls c) \<and> length (calls c) \<le> 3"
  proof
    fix c assume "c \<in> set cs"
    with chunk_three_bounds [OF cs] have "length c \<le> 3" by simp
    with calls_length [of c] have "length (calls c) \<le> 3" by simp
    with calls_rearranged assms(2) show "length (calls (sched c)) = length (calls c) \<and> length (calls c) \<le> 3"
      by simp
  qed
  from inFlight_waves [of cs "\<lambda>c. calls (sched c)" calls 3, OF this]
  show ?thesis by (simp add: handleBatchPaint_log [OF assms(1) cs])
qed

text \<open>
  C5. In the rendering phase the batch is cut, in order, into consecutive chunks of three
  units, the last chunk holding the remainder: the chunks concatenate to the batch, none
  is empty or longer than three, every chunk but the last has exactly three units, and a
  batch of seven units gives three chunks of which the third has one unit. The calls of
  one chunk all start and all settle before the next chunk starts, so whenever each chunk
  settles as a rearrangement of itself, at most three rendering calls are in flight at
  any moment.
\<close>

theorem C5_rendering_chunks:
  "\<exists>cs. chunk notes 3 = Inr cs
     \<and> concat cs = notes
     \<and> (\<forall>c \<in> set cs. 0 < length c \<and> length c \<le> 3)
     \<and> (\<forall>i. Suc i < length cs \<longrightarrow> length (cs ! i) = 3)
     \<and> (length notes = 7 \<longrightarrow> length cs = 3 \<and> length (cs ! 2) = 1)
     \<and> (\<forall>st evs. handleBatchPaint cfg reply sched True notes = Inr (st, evs) \<longrightarrow>
           evs = concat (map (\<lambda>c. map Started (calls c) @ map Settled (calls (sched c))) cs)
           \<and> ((\<forall>c. mset (sched c) = mset c) \<longrightarrow> (\<forall>k \<in> set (inFlight 0 evs). k \<le> 3)))"
proof -
  obtain cs where cs: "chunk notes 3 = Inr cs" by (simp add: chunk_three)
  have seven: "length notes = 7 \<longrightarrow> length cs = 3 \<and> length (cs ! 2) = 1"
  proof
    assume n: "length notes = 7"
    with chunk_three_length [OF cs] have l: "length cs = 3" by simp
    then have "2 < length cs" by simp
    from chunk_three_nth_length [OF cs this] n l
    show "length cs = 3 \<and> length (cs ! 2) = 1" by simp
  qed
  show ?thesis
    using cs chunk_three_concat [OF cs] chunk_three_bounds [OF cs] chunk_three_full [OF cs]
      seven handleBatchPaint_log [OF _ cs] handleBatchPaint_peak
    by (intro exI [of _ cs]) blast
qed

theorem C5_rendering_chunks_witness:
  "length sampleNotes = 7
   \<and> (\<exists>cs. chunk sampleNotes 3 = Inr cs \<and> concat cs = sampleNotes \<and> length cs = 3
          \<and> length (cs ! 2) = 1)
   \<and> (\<exists>st evs. handleBatchPaint sampleConfig sampleReply rev True sampleNotes = Inr (st, evs)
          \<and> list_all (\<lambda>k. k \<le> 3) (inFlight 0 evs))"
proof -
  have l: "length sampleNotes = 7" by (simp add: sampleNotes_def)
  have r: "\<forall>c. mset (rev c) = mset c" by simp
  obtain st evs where h: "handleBatchPaint sampleConfig sampleReply rev True sampleNotes = Inr (st, evs)"
    by (cases "handleBatchPaint sampleConfig sampleReply rev True sampleNotes")
       (auto simp add: handleBatchPaint_def chunk_three)
  from C5_rendering_chunks [of sampleNotes sampleConfig sampleReply rev] l r h
  show ?thesis by (auto simp add: list_all_iff)
qed

section \<open>Proofs: the store\<close>

lemma merge_id [simp]: "id' (merge n u) = id' n"
  by (simp add: merge_def)

lemma merge_idem: "merge (merge n u) u = merge n u"
  by (simp add: merge_def split: option.splits)

lemma foldl_updateNote:
  "foldl (\<lambda>s n. if P n then updateNote (id' n) (W n) s else s) prev xs
     = map (\<lambda>m. foldl (\<lambda>m' n. if P n \<and> id' m' = id' n then merge m' (W n) else m') m xs) prev"
proof (induction xs arbitrary: prev)
  case Nil
  show ?case by simp
next
  case (Cons x xs)
  have "(if P x then updateNote (id' x) (W x) prev else prev)
      = map (\<lambda>m. if P x \<and> id' m = id' x then merge m (W x) else m) prev"
    by (simp add: updateNote_def)
  then show ?case by (simp add: Cons.IH comp_def)
qed

lemma foldl_own_update:
  assumes "id' m = id' m0" and "\<forall>n \<in> set xs. id' n = id' m0 \<longrightarrow> n = m0"
  shows "foldl (\<lambda>m' n. if P n \<and> id' m' = id' n then merge m' (U n) else m') m xs
           = (if m0 \<in> set xs \<and> P m0 then merge m (U m0) else m)"
  using assms
proof (induction xs arbitrary: m)
  case Nil
  show ?case by simp
next
  case (Cons x xs)
  let ?m = "if P x \<and> id' m = id' x then merge m (U x) else m"
  have id: "id' ?m = id' m0" using Cons.prems(1) by simp
  have rest: "\<forall>n \<in> set xs. id' n = id' m0 \<longrightarrow> n = m0" using Cons.prems(2) by simp
  have x: "id' x = id' m0 \<longrightarrow> x = m0" using Cons.prems(2) by simp
  show ?case
  proof (cases "P x \<and> id' m = id' x")
    case True
    with x Cons.prems(1) have xm: "x = m0" by simp
    from True have "foldl (\<lambda>m' n. if P n \<and> id' m' = id' n then merge m' (U n) else m') m (x # xs)
        = foldl (\<lambda>m' n. if P n \<and> id' m' = id' n then merge m' (U n) else m') (merge m (U x)) xs"
      by simp
    also have "\<dots> = (if m0 \<in> set xs \<and> P m0 then merge (merge m (U x)) (U m0) else merge m (U x))"
      using Cons.IH [of "merge m (U x)"] Cons.prems(1) rest by simp
    finally show ?thesis using xm True by (simp add: merge_idem)
  next
    case False
    then have "foldl (\<lambda>m' n. if P n \<and> id' m' = id' n then merge m' (U n) else m') m (x # xs)
        = foldl (\<lambda>m' n. if P n \<and> id' m' = id' n then merge m' (U n) else m') m xs"
      by auto
    also have "\<dots> = (if m0 \<in> set xs \<and> P m0 then merge m (U m0) else m)"
      using Cons.IH [of m] Cons.prems(1) rest by simp
    finally show ?thesis using False x Cons.prems(1) by auto
  qed
qed

text \<open>
  A wave: each unit of \<open>c\<close> applies a first update to its own entry, then each unit of
  \<open>settled\<close> a second one. With distinct ids an entry receives the updates of its own
  unit and no other.
\<close>

lemma wave_entries:
  assumes d: "distinct (map id' prev)" and c: "set c \<subseteq> set prev" and s: "set settled = set c"
  shows "foldl (\<lambda>s n. if P n then updateNote (id' n) (V n) s else s)
           (foldl (\<lambda>s n. if P n then updateNote (id' n) (U n) s else s) prev c) settled
         = map (\<lambda>m. if m \<in> set c \<and> P m then merge (merge m (U m)) (V m) else m) prev"
proof -
  have inj: "inj_on id' (set prev)" using d by (simp add: distinct_map)
  have own: "\<And>m xs. m \<in> set prev \<Longrightarrow> set xs \<subseteq> set prev \<Longrightarrow> \<forall>n \<in> set xs. id' n = id' m \<longrightarrow> n = m"
    using inj by (auto dest: inj_onD)
  have "foldl (\<lambda>s n. if P n then updateNote (id' n) (V n) s else s)
           (foldl (\<lambda>s n. if P n then updateNote (id' n) (U n) s else s) prev c) settled
      = map (\<lambda>m. foldl (\<lambda>m' n. if P n \<and> id' m' = id' n then merge m' (V n) else m')
                 (foldl (\<lambda>m' n. if P n \<and> id' m' = id' n then merge m' (U n) else m') m c) settled) prev"
    by (simp add: foldl_updateNote comp_def)
  also have "\<dots> = map (\<lambda>m. if m \<in> set c \<and> P m then merge (merge m (U m)) (V m) else m) prev"
  proof (rule map_cong [OF refl])
    fix m assume m: "m \<in> set prev"
    have first: "foldl (\<lambda>m' n. if P n \<and> id' m' = id' n then merge m' (U n) else m') m c
        = (if m \<in> set c \<and> P m then merge m (U m) else m)"
      using foldl_own_update [of m m c P U] own [OF m c] by simp
    have "set settled \<subseteq> set prev" using s c by simp
    from own [OF m this]
    have second: "\<And>m1. id' m1 = id' m \<Longrightarrow>
        foldl (\<lambda>m' n. if P n \<and> id' m' = id' n then merge m' (V n) else m') m1 settled
        = (if m \<in> set settled \<and> P m then merge m1 (V m) else m1)"
      using foldl_own_update [of _ m settled P V] by simp
    show "foldl (\<lambda>m' n. if P n \<and> id' m' = id' n then merge m' (V n) else m')
                 (foldl (\<lambda>m' n. if P n \<and> id' m' = id' n then merge m' (U n) else m') m c) settled
          = (if m \<in> set c \<and> P m then merge (merge m (U m)) (V m) else m)"
      using first second s by simp
  qed
  finally show ?thesis .
qed

section \<open>Proofs: structuring\<close>

lemma getProp_setProp: "getProp k (setProp k v kvs) = Some v"
  by (induction kvs) (auto simp add: getProp_def)

lemma processLeftBrain_total:
  "processLeftBrain parse res =
     Inr (case leftBrainTry parse res of Inl e \<Rightarrow> fallbackOutline | Inr json \<Rightarrow> json)"
  by (simp add: processLeftBrain_def split: sum.splits)

lemma leftBrainTry_transport: "leftBrainTry parse (Inl e) = Inl e"
  by (simp add: leftBrainTry_def)

lemma leftBrainTry_unparsable:
  assumes "parse (cleanText text (ascii ''{}'')) = None"
  shows "leftBrainTry parse (Inr text) = Inl SyntaxError"
  using assms by (simp add: leftBrainTry_def)

lemma leftBrainTry_no_modules:
  assumes "parse (cleanText text (ascii ''{}'')) = Some (JObject kvs)"
    and "getProp (ascii ''modules'') kvs = None \<or> getProp (ascii ''modules'') kvs = Some (JArray [])"
  shows "leftBrainTry parse (Inr text) = Inl emptyModules"
  using assms
  by (auto simp add: leftBrainTry_def assignModules_def modulesMissingOrEmpty_def
        getProp_setProp addIds_def)

lemma structureFinish_update:
  "structureFinish parse res note =
     updateNote (id' note)
       (noUpdate\<lparr>u_structure := Some (case leftBrainTry parse res of Inl e \<Rightarrow> fallbackOutline | Inr json \<Rightarrow> json),
          u_stage := Some ReviewStructure, u_isProcessing := Some False\<rparr>)"
  by (simp add: structureFinish_def processLeftBrain_total)

lemma processNoteStructure_entries:
  "processNoteStructure parse res note notes =
     map (\<lambda>n. if id' n = id' note
               then n\<lparr>structure' := Some (case leftBrainTry parse res of Inl e \<Rightarrow> fallbackOutline | Inr json \<Rightarrow> json),
                      stage := ReviewStructure, isProcessing := False\<rparr>
               else n) notes"
  by (simp add: processNoteStructure_def structureFinish_update structureStart_def updateNote_def
        merge_def noUpdate_def comp_def cong: if_cong)

lemma organizeWave_entries:
  assumes "distinct (map id' notes)" and "set c \<subseteq> set notes" and "set settled = set c"
  shows "organizeWave parse answer c settled notes =
     map (\<lambda>n. if n \<in> set c
               then n\<lparr>structure' := Some (case leftBrainTry parse (answer n) of Inl e \<Rightarrow> fallbackOutline | Inr json \<Rightarrow> json),
                      stage := ReviewStructure, isProcessing := False\<rparr>
               else n) notes"
proof -
  have "organizeWave parse answer c settled notes =
      foldl (\<lambda>s n. if True then updateNote (id' n)
                 (noUpdate\<lparr>u_structure := Some (case leftBrainTry parse (answer n) of Inl e \<Rightarrow> fallbackOutline | Inr json \<Rightarrow> json),
                    u_stage := Some ReviewStructure, u_isProcessing := Some False\<rparr>) s else s)
        (foldl (\<lambda>s n. if True then updateNote (id' n) (noUpdate\<lparr>u_isProcessing := Some True\<rparr>) s else s) notes c)
        settled"
    by (simp add: organizeWave_def structureFinish_update structureStart_def)
  also have "\<dots> = map (\<lambda>m. if m \<in> set c \<and> True
        then merge (merge m (noUpdate\<lparr>u_isProcessing := Some True\<rparr>))
               (noUpdate\<lparr>u_structure := Some (case leftBrainTry parse (answer m) of Inl e \<Rightarrow> fallbackOutline | Inr json \<Rightarrow> json),
                  u_stage := Some ReviewStructure, u_isProcessing := Some False\<rparr>)
        else m) notes"
    by (rule wave_entries [OF assms])
  also have "\<dots> = map (\<lambda>n. if n \<in> set c
               then n\<lparr>structure' := Some (case leftBrainTry parse (answer n) of Inl e \<Rightarrow> fallbackOutline | Inr json \<Rightarrow> json),
                      stage := ReviewStructure, isProcessing := False\<rparr>
               else n) notes"
    by (simp add: merge_def noUpdate_def)
  finally show ?thesis .
qed

section \<open>Proofs: the rendering wave\<close>

lemma paintFinish_update:
  "paintFinish cfg reply note prev =
     (if paints note then
        updateNote (id' note)
          (case fst (processHand cfg reply) of
             Inr img \<Rightarrow> noUpdate\<lparr>u_finalImage := Some img, u_stage := Some Done, u_isProcessing := Some False\<rparr>
           | Inl e \<Rightarrow> noUpdate\<lparr>u_isProcessing := Some False, u_error := Some paint_failed\<rparr>) prev
      else prev)"
  by (simp add: paintFinish_def split: sum.splits)

lemma paintStart_update:
  "paintStart note prev =
     (if paints note then updateNote (id' note) (noUpdate\<lparr>u_isProcessing := Some True\<rparr>) prev
      else prev)"
  by (simp add: paintStart_def)

lemma paintWave_entries:
  assumes "distinct (map id' notes)" and "set c \<subseteq> set notes" and "set (sched c) = set c"
  shows "fst (paintWave cfg reply sched c (notes, evs)) =
     map (\<lambda>n. if n \<in> set c \<and> paints n then
                 (case fst (processHand cfg (reply n)) of
                    Inr img \<Rightarrow> n\<lparr>finalImage := Some img, stage := Done, isProcessing := False\<rparr>
                  | Inl e \<Rightarrow> n\<lparr>isProcessing := False, error' := Some paint_failed\<rparr>)
               else n) notes"
proof -
  have "fst (paintWave cfg reply sched c (notes, evs)) =
      foldl (\<lambda>s n. if paints n then updateNote (id' n)
                 (case fst (processHand cfg (reply n)) of
                    Inr img \<Rightarrow> noUpdate\<lparr>u_finalImage := Some img, u_stage := Some Done, u_isProcessing := Some False\<rparr>
                  | Inl e \<Rightarrow> noUpdate\<lparr>u_isProcessing := Some False, u_error := Some paint_failed\<rparr>) s else s)
        (foldl (\<lambda>s n. if paints n then updateNote (id' n) (noUpdate\<lparr>u_isProcessing := Some True\<rparr>) s else s) notes c)
        (sched c)"
    by (simp add: paintWave_def paintFinish_update paintStart_update)
  also have "\<dots> = map (\<lambda>m. if m \<in> set c \<and> paints m
        then merge (merge m (noUpdate\<lparr>u_isProcessing := Some True\<rparr>))
               (case fst (processHand cfg (reply m)) of
                    Inr img \<Rightarrow> noUpdate\<lparr>u_finalImage := Some img, u_stage := Some Done, u_isProcessing := Some False\<rparr>
                  | Inl e \<Rightarrow> noUpdate\<lparr>u_isProcessing := Some False, u_error := Some paint_failed\<rparr>)
        else m) notes"
    by (rule wave_entries [OF assms])
  also have "\<dots> = map (\<lambda>n. if n \<in> set c \<and> paints n then
                 (case fst (processHand cfg (reply n)) of
                    Inr img \<Rightarrow> n\<lparr>finalImage := Some img, stage := Done, isProcessing := False\<rparr>
                  | Inl e \<Rightarrow> n\<lparr>isProcessing := False, error' := Some paint_failed\<rparr>)
               else n) notes"
    by (rule map_cong [OF refl]) (simp add: merge_def noUpdate_def split: sum.splits)
  finally show ?thesis .
qed

lemma failure_update:
  "updateNote i (noUpdate\<lparr>u_isProcessing := Some False, u_error := Some e\<rparr>) notes =
     map (\<lambda>n. if id' n = i then n\<lparr>isProcessing := False, error' := Some e\<rparr> else n) notes"
  by (simp add: updateNote_def merge_def noUpdate_def)

section \<open>Claims on structuring\<close>

text \<open>
  C1. When the response of the structuring call is not parsable as JSON, or parses to an
  object whose \<^verbatim>\<open>modules\<close> is missing or empty, \<^verbatim>\<open>processLeftBrain\<close> returns the
  fixed fallback outline, whose title is the four characters U+89E3 U+6790 U+5931 U+8D25
  and whose modules are exactly one module, and \<^verbatim>\<open>processNoteStructure\<close> moves the
  unit to \<open>ReviewStructure\<close> with that outline, not processing any more.
\<close>

theorem C1_malformed_response_fallback:
  assumes "parse (cleanText text (ascii ''{}'')) = None
     \<or> (\<exists>kvs. parse (cleanText text (ascii ''{}'')) = Some (JObject kvs)
            \<and> (getProp (ascii ''modules'') kvs = None
                 \<or> getProp (ascii ''modules'') kvs = Some (JArray [])))"
  shows "processLeftBrain parse (Inr text) = Inr fallbackOutline
     \<and> jsonProp (ascii ''title'') fallbackOutline = Some (JString [35299, 26512, 22833, 36133])
     \<and> (\<exists>m. jsonProp (ascii ''modules'') fallbackOutline = Some (JArray [m]))
     \<and> processNoteStructure parse (Inr text) note notes =
         map (\<lambda>n. if id' n = id' note
                   then n\<lparr>structure' := Some fallbackOutline, stage := ReviewStructure,
                          isProcessing := False\<rparr>
                   else n) notes"
proof -
  from assms have "\<exists>e. leftBrainTry parse (Inr text) = Inl e"
    using leftBrainTry_unparsable leftBrainTry_no_modules by blast
  then obtain e where e: "leftBrainTry parse (Inr text) = Inl e" ..
  have 1: "processLeftBrain parse (Inr text) = Inr fallbackOutline"
    by (simp add: processLeftBrain_total e)
  have 2: "jsonProp (ascii ''title'') fallbackOutline = Some (JString [35299, 26512, 22833, 36133])"
    by (simp add: jsonProp_def fallbackOutline_def getProp_def fallback_title_def)
  have 3: "\<exists>m. jsonProp (ascii ''modules'') fallbackOutline = Some (JArray [m])"
    by (simp add: jsonProp_def fallbackOutline_def getProp_def ascii_def)
  have 4: "processNoteStructure parse (Inr text) note notes =
         map (\<lambda>n. if id' n = id' note
                   then n\<lparr>structure' := Some fallbackOutline, stage := ReviewStructure,
                          isProcessing := False\<rparr>
                   else n) notes"
    by (simp add: processNoteStructure_entries e)
  from 1 2 3 4 show ?thesis by simp
qed

theorem C1_malformed_response_fallback_witness:
  "processLeftBrain sampleParse (Inr (Some (ascii ''not json''))) = Inr fallbackOutline
   \<and> processNoteStructure sampleParse (Inr (Some (ascii ''not json''))) (sampleNote 2) threeNotes =
       [sampleNote 1,
        (sampleNote 2)\<lparr>structure' := Some fallbackOutline, stage := ReviewStructure,
           isProcessing := False\<rparr>,
        sampleNote 3]
   \<and> processLeftBrain sampleParse (Inr None) = Inr fallbackOutline"
proof -
  have a: "cleanText (Some (ascii ''not json'')) (ascii ''{}'') = ascii ''not json''"
    by (simp add: cleanText_def orElse_def ascii_def trim_def isWhiteSpace_def startsWith_def
          isFenceJson_def fence_def)
  have b: "sampleParse (ascii ''not json'') = None"
    by (simp add: sampleParse_def ascii_def twoSegmentsText_def echoText_def)
  have c: "cleanText None (ascii ''{}'') = ascii ''{}''"
    by (simp add: cleanText_def orElse_def ascii_def)
  have d: "sampleParse (ascii ''{}'') = Some (JObject [])"
    by (simp add: sampleParse_def)
  show ?thesis
    using C1_malformed_response_fallback [of sampleParse "Some (ascii ''not json'')" "sampleNote 2" threeNotes]
      C1_malformed_response_fallback [of sampleParse None "sampleNote 2" threeNotes]
    by (simp add: a b c d threeNotes_def getProp_def sampleNote_def)
qed

text \<open>
  C2, as stated, fails: a structuring call that is refused leaves the unit in
  \<open>ReviewStructure\<close> with the fallback outline and without an error.
\<close>

theorem C2_transport_failure_counterexample:
  "processNoteStructure sampleParse (Inl (TransportError (ascii ''network''))) (sampleNote 1)
       [sampleNote 1] =
     [(sampleNote 1)\<lparr>structure' := Some fallbackOutline, stage := ReviewStructure,
         isProcessing := False\<rparr>]
   \<and> map error' (processNoteStructure sampleParse (Inl (TransportError (ascii ''network'')))
         (sampleNote 1) [sampleNote 1]) = [None]"
  by (simp add: processNoteStructure_entries leftBrainTry_transport sampleNote_def)

text \<open>
  C2, amended. A structuring call that fails is absorbed like a malformed response:
  \<^verbatim>\<open>processLeftBrain\<close> returns the fallback outline and the unit moves to
  \<open>ReviewStructure\<close> with it, not processing any more. \<^verbatim>\<open>processLeftBrain\<close> throws for
  no outcome of the call, so \<^verbatim>\<open>processNoteStructure\<close> never sets the error of a unit.
\<close>

theorem C2_transport_failure_absorbed:
  "processLeftBrain parse (Inl e) = Inr fallbackOutline
   \<and> processNoteStructure parse (Inl e) note notes =
       map (\<lambda>n. if id' n = id' note
                 then n\<lparr>structure' := Some fallbackOutline, stage := ReviewStructure,
                        isProcessing := False\<rparr>
                 else n) notes
   \<and> (\<forall>res. \<exists>json. processLeftBrain parse res = Inr json)
   \<and> (\<forall>res. map error' (processNoteStructure parse res note notes) = map error' notes)"
proof -
  have "\<forall>res. map error' (processNoteStructure parse res note notes) = map error' notes"
    by (simp add: processNoteStructure_entries comp_def cong: if_cong)
  then show ?thesis
    by (simp add: processLeftBrain_total processNoteStructure_entries leftBrainTry_transport)
qed

theorem C2_transport_failure_absorbed_witness:
  "processLeftBrain sampleParse (Inl (TransportError (ascii ''network''))) = Inr fallbackOutline
   \<and> processNoteStructure sampleParse (Inl (TransportError (ascii ''network''))) (sampleNote 2)
        threeNotes =
       [sampleNote 1,
        (sampleNote 2)\<lparr>structure' := Some fallbackOutline, stage := ReviewStructure,
           isProcessing := False\<rparr>,
        sampleNote 3]"
proof -
  show ?thesis
    using C2_transport_failure_absorbed [of sampleParse "TransportError (ascii ''network'')" "sampleNote 2" threeNotes]
    by (simp add: threeNotes_def sampleNote_def)
qed

section \<open>Claim on the isolation of failures\<close>

text \<open>
  C6, as stated, fails for a structuring wave: the unit whose structuring call is refused
  does not get its error set. In a wave of three units of which the first one's call
  fails, every unit, the first included, ends in \<open>ReviewStructure\<close> with no error.
\<close>

theorem C6_structuring_failure_counterexample:
  "mixedAnswer (sampleNote 1) = Inl (TransportError (ascii ''network''))
   \<and> map error' (organizeWave sampleParse mixedAnswer threeNotes (rev threeNotes) threeNotes)
       = [None, None, None]
   \<and> map stage (organizeWave sampleParse mixedAnswer threeNotes (rev threeNotes) threeNotes)
       = [ReviewStructure, ReviewStructure, ReviewStructure]
   \<and> map isProcessing (organizeWave sampleParse mixedAnswer threeNotes (rev threeNotes) threeNotes)
       = [False, False, False]"
proof -
  have d: "distinct (map id' threeNotes)"
    by (simp add: threeNotes_def sampleNote_def ascii_def)
  have s: "set threeNotes \<subseteq> set threeNotes" by simp
  have r: "set (rev threeNotes) = set threeNotes" by simp
  have m: "mixedAnswer (sampleNote 1) = Inl (TransportError (ascii ''network''))"
    by (simp add: mixedAnswer_def sampleNote_def ascii_def)
  show ?thesis
    using m
    by (simp add: organizeWave_entries [OF d s r, of sampleParse mixedAnswer])
       (simp add: threeNotes_def sampleNote_def)
qed

text \<open>
  C6, amended. In a store of units with distinct ids, take a wave \<open>c\<close> of its units whose
  calls settle in any order \<open>sched c\<close>. After a rendering wave every entry of the store
  depends on its own unit's outcome alone: a unit of the wave whose rendering fails has its
  \<open>error\<close> set and \<open>isProcessing\<close> reset and nothing else changed, a unit whose rendering
  succeeds is \<open>Done\<close> with its image whatever happened to the others, and the units outside
  the wave are as before. In a structuring wave no unit fails: every unit of the wave ends
  in \<open>ReviewStructure\<close> with the outline of its own response, which is the fallback
  outline when its call fails, and the error of every entry is as before. The update by id
  that records a failure changes \<open>isProcessing\<close> and \<open>error\<close> of the entries with that id
  and no other entry.
\<close>

theorem C6_failure_isolated:
  assumes "distinct (map id' notes)" and "set c \<subseteq> set notes" and "mset (sched c) = mset c"
  shows "fst (paintWave cfg reply sched c (notes, evs)) =
           map (\<lambda>n. if n \<in> set c \<and> paints n then
                       (case fst (processHand cfg (reply n)) of
                          Inr img \<Rightarrow> n\<lparr>finalImage := Some img, stage := Done, isProcessing := False\<rparr>
                        | Inl e \<Rightarrow> n\<lparr>isProcessing := False, error' := Some paint_failed\<rparr>)
                     else n) notes
     \<and> organizeWave parse answer c (sched c) notes =
           map (\<lambda>n. if n \<in> set c
                     then n\<lparr>structure' := Some (case leftBrainTry parse (answer n) of
                                                  Inl e \<Rightarrow> fallbackOutline | Inr json \<Rightarrow> json),
                            stage := ReviewStructure, isProcessing := False\<rparr>
                     else n) notes
     \<and> map error' (organizeWave parse answer c (sched c) notes) = map error' notes
     \<and> (\<forall>i e. updateNote i (noUpdate\<lparr>u_isProcessing := Some False, u_error := Some e\<rparr>) notes =
           map (\<lambda>n. if id' n = i then n\<lparr>isProcessing := False, error' := Some e\<rparr> else n) notes)"
proof -
  from assms(3) have s: "set (sched c) = set c" by (rule mset_eq_setD)
  have o: "organizeWave parse answer c (sched c) notes =
           map (\<lambda>n. if n \<in> set c
                     then n\<lparr>structure' := Some (case leftBrainTry parse (answer n) of
                                                  Inl e \<Rightarrow> fallbackOutline | Inr json \<Rightarrow> json),
                            stage := ReviewStructure, isProcessing := False\<rparr>
                     else n) notes"
    by (rule organizeWave_entries [OF assms(1,2) s])
  have e: "map error' (organizeWave parse answer c (sched c) notes) = map error' notes"
    by (simp add: o comp_def cong: if_cong)
  show ?thesis
    using paintWave_entries [of "notes" c sched, OF assms(1,2) s] o e failure_update
    by simp
qed

lemma refused_fails:
  "fst (processHand sampleConfig refused) = Inl (TransportError (ascii ''refused 2''))"
  by (simp add: processHand_def processHandLoop.simps maxRetries_def attempt_def sampleConfig_def refused_def
        IMAGE_MODEL_def orElse_def ascii_def startsWith_def asciiLower_def)

lemma inlineImage_succeeds:
  "fst (processHand sampleConfig inlineImage) = Inr (ascii ''data:image/png;base64,QUJD'')"
  by (simp add: processHand_def processHandLoop.simps maxRetries_def attempt_def sampleConfig_def inlineImage_def
        inlineResponse_def IMAGE_MODEL_def orElse_def ascii_def startsWith_def asciiLower_def
        extractInlineImage_def partsOf_def truthy_def dataUri_def)

theorem C6_failure_isolated_witness:
  "fst (paintWave sampleConfig mixedReply rev threeNotes (threeNotes, [])) =
     [(sampleNote 1)\<lparr>isProcessing := False, error' := Some paint_failed\<rparr>,
      (sampleNote 2)\<lparr>finalImage := Some (ascii ''data:image/png;base64,QUJD''), stage := Done,
         isProcessing := False\<rparr>,
      (sampleNote 3)\<lparr>finalImage := Some (ascii ''data:image/png;base64,QUJD''), stage := Done,
         isProcessing := False\<rparr>]
   \<and> organizeWave sampleParse mixedAnswer threeNotes (rev threeNotes) threeNotes =
     [(sampleNote 1)\<lparr>structure' := Some fallbackOutline, stage := ReviewStructure,
         isProcessing := False\<rparr>,
      (sampleNote 2)\<lparr>structure' := Some fallbackOutline, stage := ReviewStructure,
         isProcessing := False\<rparr>,
      (sampleNote 3)\<lparr>structure' := Some fallbackOutline, stage := ReviewStructure,
         isProcessing := False\<rparr>]
   \<and> map error' (organizeWave sampleParse mixedAnswer threeNotes (rev threeNotes) threeNotes)
     = map error' threeNotes"
proof -
  have d: "distinct (map id' threeNotes)"
    by (simp add: threeNotes_def sampleNote_def ascii_def)
  have s: "set threeNotes \<subseteq> set threeNotes" by simp
  have r: "mset (rev threeNotes) = mset threeNotes" by simp
  have p: "paints (sampleNote (Suc 0))" "paints (sampleNote 2)" "paints (sampleNote 3)"
    by (simp_all add: paints_def truthy_def sampleNote_def ascii_def)
  have m: "mixedReply (sampleNote (Suc 0)) = refused" "mixedReply (sampleNote 2) = inlineImage"
    "mixedReply (sampleNote 3) = inlineImage"
    by (simp_all add: mixedReply_def sampleNote_def ascii_def)
  have a: "leftBrainTry sampleParse (mixedAnswer (sampleNote (Suc 0))) = Inl (TransportError (ascii ''network''))"
    by (simp add: mixedAnswer_def sampleNote_def ascii_def leftBrainTry_transport)
  have b: "leftBrainTry sampleParse (mixedAnswer (sampleNote 2)) = Inl SyntaxError"
    by (simp add: mixedAnswer_def sampleNote_def leftBrainTry_def cleanText_def orElse_def ascii_def
          trim_def isWhiteSpace_def startsWith_def isFenceJson_def fence_def sampleParse_def
          twoSegmentsText_def echoText_def)
  have c: "leftBrainTry sampleParse (mixedAnswer (sampleNote 3)) = Inl emptyModules"
    by (simp add: mixedAnswer_def sampleNote_def leftBrainTry_def cleanText_def orElse_def ascii_def
          sampleParse_def assignModules_def getProp_def modulesMissingOrEmpty_def)
  show ?thesis
    using C6_failure_isolated [of threeNotes threeNotes rev sampleConfig mixedReply "[]"
        sampleParse mixedAnswer, OF d s r]
    by (simp add: threeNotes_def p m a b c refused_fails inlineImage_succeeds)
qed

section \<open>Proofs: the rendering of one image\<close>

lemma orElse_nonempty: "d \<noteq> [] \<Longrightarrow> orElse a d \<noteq> []"
  by (simp add: orElse_def split: option.splits)

lemma scanParts_image:
  "scanParts ps = Inr (Some (bytes, mimeType)) \<Longrightarrow> bytes \<noteq> [] \<and> mimeType \<noteq> []"
proof (induction ps rule: scanParts.induct)
  case 1
  then show ?case by simp
next
  case (2 ps)
  then show ?case by simp
next
  case (3 p ps)
  then show ?case
    by (auto simp add: truthy_def orElse_nonempty ascii_def split: option.splits if_splits)
qed

lemma scanCandidates_image:
  "scanCandidates cs = Inr (Some (bytes, mimeType)) \<Longrightarrow> bytes \<noteq> [] \<and> mimeType \<noteq> []"
proof (induction cs)
  case Nil
  then show ?case by simp
next
  case (Cons c cs)
  then show ?case
    by (auto split: sum.splits option.splits dest: scanParts_image)
qed

lemma attempt_inline:
  assumes "str_includes (toLowerCase cfg (IMAGE_MODEL cfg)) (ascii ''gemini'')"
  shows "snd (attempt cfg r) = [GenerateContent]"
    and "fst (attempt cfg r) = Inr uri \<Longrightarrow>
           \<exists>mimeType bytes. mimeType \<noteq> [] \<and> bytes \<noteq> [] \<and> uri = dataUri mimeType bytes"
proof -
  show "snd (attempt cfg r) = [GenerateContent]"
    using assms by (simp add: attempt_def)
  assume "fst (attempt cfg r) = Inr uri"
  with assms obtain res bytes mimeType
    where "extractInlineImage res = Inr (Some (bytes, mimeType))" and "uri = dataUri mimeType bytes"
    by (auto simp add: attempt_def split: sum.splits option.splits)
  moreover from this have "bytes \<noteq> [] \<and> mimeType \<noteq> []"
    by (auto simp add: extractInlineImage_def dest: scanCandidates_image)
  ultimately show "\<exists>mimeType bytes. mimeType \<noteq> [] \<and> bytes \<noteq> [] \<and> uri = dataUri mimeType bytes"
    by blast
qed

lemma fetchImagen_calls: "set (snd (fetchImagen apiKey f)) \<subseteq> {Predict}"
  by (simp add: fetchImagen_def)

lemma dataUri_image:
  "m \<noteq> [] \<Longrightarrow> b \<noteq> [] \<Longrightarrow>
     \<exists>mimeType bytes. mimeType \<noteq> [] \<and> bytes \<noteq> [] \<and> dataUri m b = dataUri mimeType bytes"
  by blast

lemma image_png: "ascii ''image/png'' \<noteq> []"
  by (simp add: ascii_def)

lemma fetchImagen_image:
  assumes "fst (fetchImagen apiKey f) = Inr uri"
  shows "\<exists>mimeType bytes. mimeType \<noteq> [] \<and> bytes \<noteq> [] \<and> uri = dataUri mimeType bytes"
  using assms
  by (auto simp add: fetchImagen_def Let_def split: if_splits sum.splits
        intro!: dataUri_image orElse_nonempty image_png)

lemma attempt_image:
  assumes "fst (attempt cfg r) = Inr uri"
  shows "\<exists>mimeType bytes. mimeType \<noteq> [] \<and> bytes \<noteq> [] \<and> uri = dataUri mimeType bytes"
proof (cases "str_includes (toLowerCase cfg (IMAGE_MODEL cfg)) (ascii ''gemini'')")
  case True
  from attempt_inline(2) [OF True assms] show ?thesis .
next
  case False
  with assms have "fst (fetchImagen (env_API_KEY cfg) (fetched r)) = Inr uri"
    by (simp add: attempt_def)
  then show ?thesis by (rule fetchImagen_image)
qed

lemma processHandLoop_result:
  "fst (processHandLoop cfg reply i e0) = Inr uri \<Longrightarrow>
     \<exists>j. i \<le> j \<and> j < maxRetries \<and> fst (attempt cfg (reply j)) = Inr uri"
proof (induction cfg reply i e0 rule: processHandLoop.induct)
  case (1 cfg reply i lastError)
  show ?case
  proof (cases "i < maxRetries")
    case False
    with "1.prems" show ?thesis by (simp add: processHandLoop.simps [of cfg reply i lastError])
  next
    case True
    obtain r calls where a: "attempt cfg (reply i) = (r, calls)" by (cases "attempt cfg (reply i)")
    show ?thesis
    proof (cases r)
      case (Inr u)
      with a True "1.prems" have "fst (attempt cfg (reply i)) = Inr uri"
        by (simp add: processHandLoop.simps [of cfg reply i lastError])
      with True show ?thesis by blast
    next
      case (Inl e)
      with a True "1.prems" have "fst (processHandLoop cfg reply (i + 1) e) = Inr uri"
        by (simp add: processHandLoop.simps [of cfg reply i lastError] split: prod.splits)
      from "1.IH" [OF True a [symmetric] Inl this]
      obtain j where "i + 1 \<le> j" "j < maxRetries" "fst (attempt cfg (reply j)) = Inr uri"
        by blast
      then show ?thesis by (intro exI [of _ j]) simp
    qed
  qed
qed

lemma processHandLoop_calls:
  "Call b \<in> set (snd (processHandLoop cfg reply i e0)) \<Longrightarrow>
     \<exists>j. i \<le> j \<and> j < maxRetries \<and> b \<in> set (snd (attempt cfg (reply j)))"
proof (induction cfg reply i e0 rule: processHandLoop.induct)
  case (1 cfg reply i lastError)
  show ?case
  proof (cases "i < maxRetries")
    case False
    with "1.prems" show ?thesis by (simp add: processHandLoop.simps [of cfg reply i lastError])
  next
    case True
    obtain r calls where a: "attempt cfg (reply i) = (r, calls)" by (cases "attempt cfg (reply i)")
    show ?thesis
    proof (cases r)
      case (Inr u)
      with a True "1.prems" have "b \<in> set (snd (attempt cfg (reply i)))"
        by (auto simp add: processHandLoop.simps [of cfg reply i lastError])
      with True show ?thesis by blast
    next
      case (Inl e)
      with a True "1.prems"
      have "b \<in> set calls \<or> Call b \<in> set (snd (processHandLoop cfg reply (i + 1) e))"
        by (auto simp add: processHandLoop.simps [of cfg reply i lastError] split: prod.splits)
      then show ?thesis
      proof
        assume "b \<in> set calls"
        with a True show ?thesis by (intro exI [of _ i]) simp
      next
        assume "Call b \<in> set (snd (processHandLoop cfg reply (i + 1) e))"
        from "1.IH" [OF True a [symmetric] Inl this]
        obtain j where "i + 1 \<le> j" "j < maxRetries" "b \<in> set (snd (attempt cfg (reply j)))"
          by blast
        then show ?thesis by (intro exI [of _ j]) simp
      qed
    qed
  qed
qed


text \<open>
  The loop of \<^verbatim>\<open>processHand\<close>, unrolled: a success of an attempt returns at once; a
  failure is followed by a wait of 1000 times the attempt's number, also after the
  third attempt, and the error of the third attempt is the one thrown.
\<close>

lemma loop_end:
  "i = 3 \<Longrightarrow> processHandLoop cfg reply i e = (Inl e, [])"
  by (subst processHandLoop.simps) (simp add: maxRetries_def)

lemma loop_third:
  "i = 2 \<Longrightarrow> processHandLoop cfg reply i e =
     (case attempt cfg (reply 2) of
        (Inr uri, calls2) \<Rightarrow> (Inr uri, Attempt 2 # map Call calls2)
      | (Inl e2, calls2) \<Rightarrow> (Inl e2, Attempt 2 # map Call calls2 @ [Sleep 3000]))"
  by (subst processHandLoop.simps) (simp add: maxRetries_def loop_end split: prod.splits sum.splits)

lemma loop_second:
  "i = 1 \<Longrightarrow> processHandLoop cfg reply i e =
     (case attempt cfg (reply 1) of
        (Inr uri, calls1) \<Rightarrow> (Inr uri, Attempt 1 # map Call calls1)
      | (Inl e1, calls1) \<Rightarrow>
          (case attempt cfg (reply 2) of
             (Inr uri, calls2) \<Rightarrow>
               (Inr uri, Attempt 1 # map Call calls1 @ Sleep 2000 # Attempt 2 # map Call calls2)
           | (Inl e2, calls2) \<Rightarrow>
               (Inl e2,
                Attempt 1 # map Call calls1 @ Sleep 2000 # Attempt 2 # map Call calls2
                @ [Sleep 3000])))"
  by (subst processHandLoop.simps) (simp add: maxRetries_def loop_third split: prod.splits sum.splits)

lemma processHand_unrolled:
  "processHand cfg reply =
     (case attempt cfg (reply 0) of
        (Inr uri, calls0) \<Rightarrow> (Inr uri, Attempt 0 # map Call calls0)
      | (Inl e0, calls0) \<Rightarrow>
          (case attempt cfg (reply 1) of
             (Inr uri, calls1) \<Rightarrow>
               (Inr uri, Attempt 0 # map Call calls0 @ Sleep 1000 # Attempt 1 # map Call calls1)
           | (Inl e1, calls1) \<Rightarrow>
               (case attempt cfg (reply 2) of
                  (Inr uri, calls2) \<Rightarrow>
                    (Inr uri,
                     Attempt 0 # map Call calls0 @ Sleep 1000 # Attempt 1 # map Call calls1
                     @ Sleep 2000 # Attempt 2 # map Call calls2)
                | (Inl e2, calls2) \<Rightarrow>
                    (Inl e2,
                     Attempt 0 # map Call calls0 @ Sleep 1000 # Attempt 1 # map Call calls1
                     @ Sleep 2000 # Attempt 2 # map Call calls2 @ [Sleep 3000]))))"
  unfolding processHand_def
  by (subst processHandLoop.simps) (simp add: maxRetries_def loop_second split: prod.splits sum.splits)

lemma processHand_attempts:
  "length (filter (\<lambda>ev. \<exists>i. ev = Attempt i) (snd (processHand cfg reply))) \<le> 3"
  by (simp add: processHand_unrolled split: prod.splits sum.splits)

lemma processHand_first_success:
  assumes "attempt cfg (reply 0) = (Inr uri, calls0)"
  shows "processHand cfg reply = (Inr uri, Attempt 0 # map Call calls0)"
  using assms by (simp add: processHand_unrolled)

lemma processHand_second_success:
  assumes "attempt cfg (reply 0) = (Inl e0, calls0)" and "attempt cfg (reply 1) = (Inr uri, calls1)"
  shows "processHand cfg reply =
     (Inr uri, Attempt 0 # map Call calls0 @ Sleep 1000 # Attempt 1 # map Call calls1)"
  using assms by (simp add: processHand_unrolled)

lemma processHand_third_success:
  assumes "attempt cfg (reply 0) = (Inl e0, calls0)" and "attempt cfg (reply 1) = (Inl e1, calls1)"
    and "attempt cfg (reply 2) = (Inr uri, calls2)"
  shows "processHand cfg reply =
     (Inr uri,
      Attempt 0 # map Call calls0 @ Sleep 1000 # Attempt 1 # map Call calls1
      @ Sleep 2000 # Attempt 2 # map Call calls2)"
  using assms by (simp add: processHand_unrolled)

lemma processHand_exhausted:
  assumes "attempt cfg (reply 0) = (Inl e0, calls0)" and "attempt cfg (reply 1) = (Inl e1, calls1)"
    and "attempt cfg (reply 2) = (Inl e2, calls2)"
  shows "processHand cfg reply =
     (Inl e2,
      Attempt 0 # map Call calls0 @ Sleep 1000 # Attempt 1 # map Call calls1
      @ Sleep 2000 # Attempt 2 # map Call calls2 @ [Sleep 3000])"
  using assms by (simp add: processHand_unrolled)

section \<open>Claims on the rendering of one image\<close>

text \<open>
  C3, at the input where every attempt fails (the default model and a backend that refuses
  every call): \<^verbatim>\<open>processHand\<close> makes three attempts and throws the error of the third,
  but it waits three times, 1000, 2000 and 3000 milliseconds: the third wait follows the
  last attempt, where the claim has the waits 1 s and 2 s between attempts only.
\<close>

theorem C3_wait_after_last_attempt:
  "processHand sampleConfig refused =
     (Inl (TransportError (ascii ''refused 2'')),
      [Attempt 0, Call GenerateContent, Sleep 1000,
       Attempt 1, Call GenerateContent, Sleep 2000,
       Attempt 2, Call GenerateContent, Sleep 3000])"
  by (simp add: processHand_unrolled attempt_def sampleConfig_def refused_def
        IMAGE_MODEL_def orElse_def ascii_def startsWith_def asciiLower_def)

text \<open>
  C8. Which backend an attempt calls is decided by the configured model id alone: if the
  lower-cased id contains \<^verbatim>\<open>gemini\<close>, every attempt calls the multimodal completion and
  reads its inline parts, whatever the prediction endpoint would answer; if not, every
  attempt goes through \<^verbatim>\<open>fetchImagen\<close> and calls nothing but the prediction endpoint.
  On either path, an image that is returned is a data URI: \<^verbatim>\<open>data:\<close>, a non-empty MIME
  type, \<^verbatim>\<open>;base64,\<close> and non-empty data.
\<close>

theorem C8_backend_by_model_id:
  "(str_includes (toLowerCase cfg (IMAGE_MODEL cfg)) (ascii ''gemini'') \<longrightarrow>
      snd (attempt cfg r) = [GenerateContent]
      \<and> attempt cfg r = attempt cfg (r\<lparr>fetched := f\<rparr>)
      \<and> (\<forall>b. Call b \<in> set (snd (processHand cfg reply)) \<longrightarrow> b = GenerateContent))
   \<and> (\<not> str_includes (toLowerCase cfg (IMAGE_MODEL cfg)) (ascii ''gemini'') \<longrightarrow>
      attempt cfg r = fetchImagen (env_API_KEY cfg) (fetched r)
      \<and> set (snd (attempt cfg r)) \<subseteq> {Predict}
      \<and> (\<forall>b. Call b \<in> set (snd (processHand cfg reply)) \<longrightarrow> b = Predict))
   \<and> (\<forall>uri. fst (attempt cfg r) = Inr uri \<or> fst (processHand cfg reply) = Inr uri \<longrightarrow>
         (\<exists>mimeType bytes. mimeType \<noteq> [] \<and> bytes \<noteq> []
            \<and> uri = ascii ''data:'' @ mimeType @ ascii '';base64,'' @ bytes))"
proof -
  have inline: "str_includes (toLowerCase cfg (IMAGE_MODEL cfg)) (ascii ''gemini'') \<Longrightarrow>
      Call b \<in> set (snd (processHand cfg reply)) \<Longrightarrow> b = GenerateContent" for b
    using processHandLoop_calls [of b cfg reply 0 Undefined] attempt_inline(1) [of cfg]
    by (auto simp add: processHand_def)
  have predict: "\<not> str_includes (toLowerCase cfg (IMAGE_MODEL cfg)) (ascii ''gemini'') \<Longrightarrow>
      Call b \<in> set (snd (processHand cfg reply)) \<Longrightarrow> b = Predict" for b
    using processHandLoop_calls [of b cfg reply 0 Undefined] fetchImagen_calls
    by (fastforce simp add: processHand_def attempt_def)
  have uri: "fst (attempt cfg r) = Inr uri \<or> fst (processHand cfg reply) = Inr uri \<Longrightarrow>
      \<exists>mimeType bytes. mimeType \<noteq> [] \<and> bytes \<noteq> []
         \<and> uri = ascii ''data:'' @ mimeType @ ascii '';base64,'' @ bytes" for uri
    using processHandLoop_result [of cfg reply 0 Undefined uri] attempt_image [of cfg _ uri]
    by (auto simp add: processHand_def dataUri_def)
  show ?thesis
    using inline predict uri fetchImagen_calls [of "env_API_KEY cfg" "fetched r"]
    by (auto simp add: attempt_def)
qed

theorem C8_backend_by_model_id_witness:
  "processHand predictConfig predicted =
     (Inr (ascii ''data:image/png;base64,REVG''), [Attempt 0, Call Predict])
   \<and> processHand sampleConfig predicted =
     (Inr (ascii ''data:image/png;base64,QUJD''), [Attempt 0, Call GenerateContent])
   \<and> \<not> str_includes (toLowerCase predictConfig (IMAGE_MODEL predictConfig)) (ascii ''gemini'')
   \<and> str_includes (toLowerCase sampleConfig (IMAGE_MODEL sampleConfig)) (ascii ''gemini'')"
proof -
  have p: "\<not> str_includes (toLowerCase predictConfig (IMAGE_MODEL predictConfig)) (ascii ''gemini'')"
    by (simp add: predictConfig_def IMAGE_MODEL_def orElse_def ascii_def asciiLower_def startsWith_def)
  have g: "str_includes (toLowerCase sampleConfig (IMAGE_MODEL sampleConfig)) (ascii ''gemini'')"
    by (simp add: sampleConfig_def IMAGE_MODEL_def orElse_def ascii_def asciiLower_def startsWith_def)
  have f: "fetchImagen (env_API_KEY predictConfig) (fetched (predicted 0))
      = (Inr (ascii ''data:image/png;base64,REVG''), [Predict])"
    by (simp add: fetchImagen_def predictConfig_def predicted_def truthy_def firstPrediction_def
          orElse_def dataUri_def ascii_def)
  have i: "attempt sampleConfig (predicted 0\<lparr>fetched := Inl Undefined\<rparr>)
      = (Inr (ascii ''data:image/png;base64,QUJD''), [GenerateContent])"
    using g
    by (simp add: attempt_def predicted_def inlineResponse_def extractInlineImage_def partsOf_def
          truthy_def orElse_def dataUri_def ascii_def)
  from C8_backend_by_model_id [of predictConfig "predicted 0" "Inl Undefined" predicted] p f
  have 1: "attempt predictConfig (predicted 0) = (Inr (ascii ''data:image/png;base64,REVG''), [Predict])"
    by simp
  from C8_backend_by_model_id [of sampleConfig "predicted 0" "Inl Undefined" predicted] g i
  have 2: "attempt sampleConfig (predicted 0) = (Inr (ascii ''data:image/png;base64,QUJD''), [GenerateContent])"
    by simp
  from 1 2 p g show ?thesis
    by (simp add: processHand_unrolled)
qed

section \<open>Proofs: splitting\<close>

lemma trim_length: "length (trim s) \<le> length s"
proof -
  have "length (trim s) \<le> length (dropWhile isWhiteSpace s)"
    unfolding trim_def using length_dropWhile_le [of isWhiteSpace "rev (dropWhile isWhiteSpace s)"]
    by simp
  also have "\<dots> \<le> length s" by (rule length_dropWhile_le)
  finally show ?thesis .
qed

lemma validPart_long: "validPart p = Some s \<Longrightarrow> p = JString s \<and> 100 \<le> length (trim s)"
  by (cases p) (auto simp add: validPart_def split: if_splits)

lemma validParts_long:
  "s \<in> set (List.map_filter validPart ps) \<Longrightarrow> JString s \<in> set ps \<and> 100 \<le> length (trim s)"
proof (induction ps)
  case Nil
  then show ?case by (simp add: map_filter_simps)
next
  case (Cons p ps)
  then show ?case
    by (cases "validPart p") (auto simp add: map_filter_simps dest: validPart_long)
qed

lemma validParts_none:
  assumes "\<forall>s. JString s \<in> set ps \<longrightarrow> length (trim s) < 100"
  shows "List.map_filter validPart ps = []"
proof (rule ccontr)
  assume "List.map_filter validPart ps \<noteq> []"
  then obtain s where "s \<in> set (List.map_filter validPart ps)"
    by (cases "List.map_filter validPart ps") auto
  from validParts_long [OF this] assms show False by auto
qed

lemma splitBrain_array:
  assumes "parse (cleanText t (ascii ''[]'')) = Some (JArray ps)"
  shows "processSplitBrain parse (Inr t) text =
     Inr (if List.map_filter validPart ps = [] then [text] else List.map_filter validPart ps)"
  using assms
  by (cases ps) (simp_all add: processSplitBrain_def splitBrainTry_def Let_def map_filter_simps)

lemma splitBrain_fallback:
  "processSplitBrain parse (Inl e) text = Inr [text]"
  "parse (cleanText t (ascii ''[]'')) = None \<Longrightarrow> processSplitBrain parse (Inr t) text = Inr [text]"
  "parse (cleanText t (ascii ''[]'')) = Some j \<Longrightarrow> \<forall>ps. j \<noteq> JArray ps \<Longrightarrow>
     processSplitBrain parse (Inr t) text = Inr [text]"
  by (auto simp add: processSplitBrain_def splitBrainTry_def split: json.splits)

lemma splitBrain_result:
  "\<exists>parts. processSplitBrain parse res text = Inr parts
     \<and> (parts = [text] \<or> (parts \<noteq> [] \<and> (\<forall>s \<in> set parts. 100 \<le> length (trim s))))"
proof (cases res)
  case (Inl e)
  then show ?thesis by (simp add: splitBrain_fallback)
next
  case (Inr t)
  show ?thesis
  proof (cases "parse (cleanText t (ascii ''[]''))")
    case None
    with Inr show ?thesis by (simp add: splitBrain_fallback)
  next
    case (Some j)
    show ?thesis
    proof (cases "\<exists>ps. j = JArray ps")
      case False
      with Some Inr show ?thesis by (simp add: splitBrain_fallback)
    next
      case True
      then obtain ps where "j = JArray ps" ..
      with Some Inr show ?thesis
        by (auto simp add: splitBrain_array dest: validParts_long)
    qed
  qed
qed

section \<open>Claims on splitting\<close>

text \<open>
  C4. \<^verbatim>\<open>processSplitBrain\<close> returns a non-empty list of segments for every outcome of the
  external call and every input, and throws for none. What it returns is either the
  original input alone, verbatim, or the returned strings of at least 100 characters
  after trimming, every shorter one discarded. It is the input alone when the call fails,
  when the response is not parsable or is not an array, and when no segment remains after
  discarding.
\<close>

theorem C4_split_total_fallback:
  "(\<exists>parts. processSplitBrain parse res text = Inr parts \<and> parts \<noteq> []
      \<and> (parts = [text] \<or> (\<forall>s \<in> set parts. 100 \<le> length (trim s) \<and> 100 \<le> length s)))
   \<and> (\<forall>t ps. res = Inr t \<and> parse (cleanText t (ascii ''[]'')) = Some (JArray ps) \<longrightarrow>
         (\<forall>s. JString s \<in> set ps \<and> length s < 100 \<longrightarrow>
            s \<notin> set (List.map_filter validPart ps))
         \<and> processSplitBrain parse res text =
             Inr (if List.map_filter validPart ps = [] then [text]
                  else List.map_filter validPart ps))
   \<and> (\<forall>e. res = Inl e \<longrightarrow> processSplitBrain parse res text = Inr [text])
   \<and> (\<forall>t. res = Inr t \<and> parse (cleanText t (ascii ''[]'')) = None \<longrightarrow>
         processSplitBrain parse res text = Inr [text])
   \<and> (\<forall>t j. res = Inr t \<and> parse (cleanText t (ascii ''[]'')) = Some j \<and> (\<forall>ps. j \<noteq> JArray ps) \<longrightarrow>
         processSplitBrain parse res text = Inr [text])"
proof -
  from splitBrain_result [of parse res "text"]
  obtain parts where r: "processSplitBrain parse res text = Inr parts"
    and p: "parts = [text] \<or> (parts \<noteq> [] \<and> (\<forall>s \<in> set parts. 100 \<le> length (trim s)))"
    by blast
  have long: "parts = [text] \<or> (\<forall>s \<in> set parts. 100 \<le> length (trim s) \<and> 100 \<le> length s)"
    using p trim_length le_trans by blast
  have 1: "\<exists>parts. processSplitBrain parse res text = Inr parts \<and> parts \<noteq> []
      \<and> (parts = [text] \<or> (\<forall>s \<in> set parts. 100 \<le> length (trim s) \<and> 100 \<le> length s))"
    using r p long by auto
  have 2: "\<forall>s. JString s \<in> set ps \<and> length s < 100 \<longrightarrow> s \<notin> set (List.map_filter validPart ps)" for ps
  proof (intro allI impI notI)
    fix s assume "JString s \<in> set ps \<and> length s < 100" and "s \<in> set (List.map_filter validPart ps)"
    with validParts_long [of s ps] trim_length [of s] show False by simp
  qed
  show ?thesis
    using 1 2 by (simp add: splitBrain_array splitBrain_fallback)
qed

section \<open>Proofs: the sample responses\<close>

lemma removeFenceJson_plain: "96 \<notin> set s \<Longrightarrow> removeFenceJson s = s"
  by (induction s) (auto simp add: isFenceJson_def fence_def)

lemma removeFence_plain: "96 \<notin> set s \<Longrightarrow> removeFence s = s"
  by (induction s) (auto simp add: startsWith_def fence_def)

lemma trim_plain:
  assumes "s \<noteq> []" and "\<not> isWhiteSpace (hd s)" and "\<not> isWhiteSpace (last s)"
  shows "trim s = s"
proof -
  from assms(1,2) have 1: "dropWhile isWhiteSpace s = s" by (cases s) simp_all
  from assms(1,3) have 2: "dropWhile isWhiteSpace (rev s) = rev s"
    by (cases "rev s") (simp_all add: hd_rev [symmetric])
  from 1 2 show ?thesis by (simp add: trim_def)
qed

lemma cleanText_plain:
  assumes "96 \<notin> set s" and "s \<noteq> []" and "\<not> isWhiteSpace (hd s)" and "\<not> isWhiteSpace (last s)"
  shows "cleanText (Some s) d = s"
  using assms by (simp add: cleanText_def removeFenceJson_plain removeFence_plain trim_plain orElse_def)

lemma twoSegments_clean: "cleanText (Some twoSegmentsText) d = twoSegmentsText"
  by (rule cleanText_plain)
     (simp_all add: twoSegmentsText_def segmentX_def segmentY_def ascii_def isWhiteSpace_def)

lemma twoSegments_parse:
  "sampleParse twoSegmentsText = Some (JArray [JString segmentX, JString segmentY])"
  by (simp add: sampleParse_def twoSegmentsText_def ascii_def)

lemma segments_valid:
  "validPart (JString segmentX) = Some segmentX" "validPart (JString segmentY) = Some segmentY"
proof -
  have "trim segmentX = segmentX"
    by (rule trim_plain) (simp_all add: segmentX_def isWhiteSpace_def)
  moreover have "trim segmentY = segmentY"
    by (rule trim_plain) (simp_all add: segmentY_def isWhiteSpace_def)
  ultimately show "validPart (JString segmentX) = Some segmentX"
    "validPart (JString segmentY) = Some segmentY"
    by (simp_all add: validPart_def segmentX_def segmentY_def)
qed

lemma echo_clean: "cleanText (Some echoText) d = echoText"
  by (rule cleanText_plain) (simp_all add: echoText_def ascii_def isWhiteSpace_def)

lemma abc_trim: "trim (ascii ''abc'') = ascii ''abc''"
  by (rule trim_plain) (simp_all add: ascii_def isWhiteSpace_def)

lemma segmentX_head: "segmentX = 120 # replicate 99 120"
  using replicate_Suc [of 99 "120::nat"] by (simp add: segmentX_def)

lemma echo_parse: "sampleParse echoText = Some (JArray [JString (ascii ''abc'')])"
  by (simp add: sampleParse_def echoText_def twoSegmentsText_def ascii_def segmentX_head)

lemma abc_invalid: "validPart (JString (ascii ''abc'')) = None"
  by (simp add: validPart_def abc_trim) (simp add: ascii_def)

lemma twoSegments_response:
  "sampleParse (cleanText (Some twoSegmentsText) (ascii ''[]''))
     = Some (JArray [JString segmentX, JString segmentY])"
  by (simp add: twoSegments_clean twoSegments_parse)

theorem C4_split_total_fallback_witness:
  "processSplitBrain sampleParse (Inl (TransportError (ascii ''network''))) (ascii ''abc'')
     = Inr [ascii ''abc'']
   \<and> processSplitBrain sampleParse (Inr (Some echoText)) (ascii ''abc'') = Inr [ascii ''abc'']
   \<and> processSplitBrain sampleParse (Inr (Some twoSegmentsText)) (ascii ''abc'')
     = Inr [segmentX, segmentY]"
proof -
  show ?thesis
    using C4_split_total_fallback [of sampleParse "Inl (TransportError (ascii ''network''))" "ascii ''abc''"]
      C4_split_total_fallback [of sampleParse "Inr (Some echoText)" "ascii ''abc''"]
      C4_split_total_fallback [of sampleParse "Inr (Some twoSegmentsText)" "ascii ''abc''"]
    by (simp add: echo_clean echo_parse twoSegments_clean twoSegments_parse abc_invalid
          segments_valid)
qed

text \<open>
  C9, as stated, fails: for the input \<^verbatim>\<open>abc\<close>, a response holding two strings of 100
  characters each is accepted as it is, so the output is these two segments and two units
  are created, neither of them holding the input.
\<close>

theorem C9_short_input_counterexample:
  "length (ascii ''abc'') < 100
   \<and> processSplitBrain sampleParse (Inr (Some twoSegmentsText)) (ascii ''abc'')
       = Inr [segmentX, segmentY]
   \<and> map order' (handleSplit sampleParse (Inr (Some twoSegmentsText)) showNat True (ascii ''abc'') [])
       = [1, 2]
   \<and> map originalText
        (handleSplit sampleParse (Inr (Some twoSegmentsText)) showNat True (ascii ''abc'') [])
       = [segmentX, segmentY]
   \<and> ascii ''abc'' \<noteq> segmentX \<and> ascii ''abc'' \<noteq> segmentY"
proof -
  have r: "processSplitBrain sampleParse (Inr (Some twoSegmentsText)) (ascii ''abc'')
       = Inr [segmentX, segmentY]"
    using splitBrain_array [of sampleParse "Some twoSegmentsText", OF twoSegments_response]
    by (simp add: segments_valid)
  have "length (ascii ''abc'') = 3" and "length segmentX = 100" and "length segmentY = 100"
    by (simp_all add: ascii_def segmentX_def segmentY_def)
  then have n: "ascii ''abc'' \<noteq> segmentX \<and> ascii ''abc'' \<noteq> segmentY"
    by auto
  have e: "ascii ''abc'' \<noteq> []" by (simp add: ascii_def)
  show ?thesis
    using r n e
    by (simp add: handleSplit_def abc_trim newNotes_def enumerate_eq_zip) (simp add: ascii_def)
qed

text \<open>
  C9, amended. For every input shorter than 100 characters, if every segment that the
  splitting call returns is no longer than the input, as any piece of the input is,
  \<^verbatim>\<open>processSplitBrain\<close> returns exactly one segment equal to the input; and
  \<^verbatim>\<open>handleSplit\<close>, with an API key and raw text that is not blank and trims to this
  input, creates exactly one unit, with order 1 and this input as its text.
\<close>

theorem C9_short_input_single_unit:
  assumes "length text < 100"
    and "\<forall>t ps s. res = Inr t \<and> parse (cleanText t (ascii ''[]'')) = Some (JArray ps)
           \<and> JString s \<in> set ps \<longrightarrow> length s \<le> length text"
  shows "processSplitBrain parse res text = Inr [text]
     \<and> (\<forall>rawText. trim rawText = text \<and> text \<noteq> [] \<longrightarrow>
          handleSplit parse res uuid True rawText notes =
            [\<lparr>id' = uuid 0, order' = 1, originalText = text, stage = Organizing,
              isProcessing = False, structure' = None, generatedPrompt = None,
              finalImage = None, error' = None\<rparr>])"
proof -
  have one: "processSplitBrain parse res text = Inr [text]"
  proof (cases res)
    case (Inl e)
    then show ?thesis by (simp add: splitBrain_fallback)
  next
    case (Inr t)
    show ?thesis
    proof (cases "parse (cleanText t (ascii ''[]''))")
      case None
      with Inr show ?thesis by (simp add: splitBrain_fallback)
    next
      case (Some j)
      show ?thesis
      proof (cases "\<exists>ps. j = JArray ps")
        case False
        with Some Inr show ?thesis by (simp add: splitBrain_fallback)
      next
        case True
        then obtain ps where j: "j = JArray ps" ..
        have "\<forall>s. JString s \<in> set ps \<longrightarrow> length (trim s) < 100"
        proof (intro allI impI)
          fix s assume "JString s \<in> set ps"
          with assms(2) Inr Some j have "length s \<le> length text" by blast
          with assms(1) trim_length [of s] show "length (trim s) < 100" by simp
        qed
        then have "List.map_filter validPart ps = []" by (rule validParts_none)
        with Some Inr j show ?thesis by (simp add: splitBrain_array)
      qed
    qed
  qed
  then show ?thesis
    by (simp add: handleSplit_def newNotes_def enumerate_eq_zip)
qed

theorem C9_short_input_single_unit_witness:
  "processSplitBrain sampleParse (Inr (Some echoText)) (ascii ''abc'') = Inr [ascii ''abc'']
   \<and> handleSplit sampleParse (Inr (Some echoText)) showNat True (ascii '' abc '') threeNotes =
       [\<lparr>id' = ascii ''0'', order' = 1, originalText = ascii ''abc'', stage = Organizing,
         isProcessing = False, structure' = None, generatedPrompt = None,
         finalImage = None, error' = None\<rparr>]"
proof -
  have l: "length (ascii ''abc'') < 100" by (simp add: ascii_def)
  have h: "\<forall>t ps s. Inr (Some echoText) = Inr t \<and> sampleParse (cleanText t (ascii ''[]'')) = Some (JArray ps)
           \<and> JString s \<in> set ps \<longrightarrow> length s \<le> length (ascii ''abc'')"
    by (auto simp add: echo_clean echo_parse)
  have t: "trim (ascii '' abc '') = ascii ''abc''"
    by (simp add: trim_def ascii_def isWhiteSpace_def)
  have e: "ascii ''abc'' \<noteq> []" by (simp add: ascii_def)
  from C9_short_input_single_unit [OF l h, of showNat threeNotes] t e
  show ?thesis by (simp add: ascii_def)
qed

section \<open>Proofs: the synthesis of the prompt\<close>

lemma orElse_default:
  "orElse None d = d" "orElse (Some []) d = d" "s \<noteq> [] \<Longrightarrow> orElse (Some s) d = s"
  by (simp_all add: orElse_def)

lemma untitled_nonempty: "untitled \<noteq> []"
  by (simp add: untitled_def)

lemma keywords_nonempty: "ascii ''abstract concepts'' \<noteq> []"
  by (simp add: ascii_def)

lemma dropWhile_snoc_keep: "\<not> P c \<Longrightarrow> dropWhile P (xs @ [c]) = dropWhile P xs @ [c]"
  by (induction xs) simp_all

lemma trim_blank_head: "isWhiteSpace w \<Longrightarrow> trim (w # s) = trim s"
  by (simp add: trim_def)

lemma trim_keeps_head:
  "\<not> isWhiteSpace c \<Longrightarrow> trim (c # s) = c # rev (dropWhile isWhiteSpace (rev s))"
  by (simp add: trim_def dropWhile_snoc_keep)

lemma template0_head: "\<exists>rest. template0 = 10 # 82 # rest"
  by (simp add: template0_def ascii_def)

lemma prompt_head: "\<exists>rest. processRightBrain (Some d) settings = 82 # rest"
proof -
  from template0_head obtain rest where t: "template0 = 10 # 82 # rest" ..
  have w: "isWhiteSpace 10" and r: "\<not> isWhiteSpace 82"
    by (simp_all add: isWhiteSpace_def)
  show ?thesis
    by (simp add: processRightBrain_def Let_def t trim_blank_head [OF w] trim_keeps_head [OF r])
qed

lemma prompt_not_noData: "processRightBrain (Some d) settings \<noteq> noData"
proof -
  from prompt_head [of d settings] obtain rest
    where "processRightBrain (Some d) settings = 82 # rest" ..
  then show ?thesis by (simp add: noData_def ascii_def)
qed

lemma includes_mid: "str_includes (a @ t @ b) t"
proof (induction a)
  case Nil
  show ?case
  proof (cases "t @ b")
    case Nil
    then show ?thesis by simp
  next
    case (Cons x xs)
    have "take (length t) (t @ b) = t" by simp
    with Cons show ?thesis by (simp add: startsWith_def)
  qed
next
  case (Cons x a)
  then show ?case by simp
qed

lemma trim_framed:
  assumes "isWhiteSpace w" and "\<not> isWhiteSpace c" and "\<not> isWhiteSpace e"
    and "\<forall>x \<in> set ws. isWhiteSpace x"
  shows "trim (w # c # s @ e # ws) = c # s @ [e]"
proof -
  have "dropWhile isWhiteSpace (rev ws @ e # rev s) = e # rev s"
    using assms(3,4) by (subst dropWhile_append2) auto
  then have "rev (dropWhile isWhiteSpace (rev (s @ e # ws))) = s @ [e]"
    by simp
  with assms(1,2) show ?thesis
    by (simp add: trim_blank_head trim_keeps_head)
qed

lemma template8_text: "template8 = [34, 10, 32, 32]"
  by (simp add: template8_def ascii_def)

lemma prompt_explicit:
  "processRightBrain (Some d) settings =
     drop 1 template0 @ name (findStyle (styleId settings)) @ template1
     @ desc (findStyle (styleId settings)) @ template2
     @ (if colorTheme settings = [] then default_palette else colorTheme settings) @ template3
     @ (case visual_theme_keywords d of
          None \<Rightarrow> ascii ''abstract concepts''
        | Some k \<Rightarrow> if k = [] then ascii ''abstract concepts'' else k)
     @ template4
     @ (case title d of
          None \<Rightarrow> [26410, 21629, 21517, 31508, 35760]
        | Some t \<Rightarrow> if t = [] then [26410, 21629, 21517, 31508, 35760] else t)
     @ template5
     @ (case summary_context d of None \<Rightarrow> [] | Some s \<Rightarrow> s)
     @ template6
     @ join [10] (map moduleLine (enumerate 0 (case modules d of None \<Rightarrow> [] | Some ms \<Rightarrow> ms)))
     @ template7 @ watermark settings @ [34]"
proof -
  from template0_head obtain r where t0: "template0 = 10 # 82 # r" ..
  have w: "isWhiteSpace 10" and c: "\<not> isWhiteSpace 82" and e: "\<not> isWhiteSpace 34"
    and ws: "\<forall>x \<in> set [10, 32, 32]. isWhiteSpace x"
    by (simp_all add: isWhiteSpace_def)
  have nl: "ascii ''\<newline>'' = [10]" by (simp add: ascii_def)
  have s: "orElse (summary_context d) [] = (case summary_context d of None \<Rightarrow> [] | Some s \<Rightarrow> s)"
    by (simp add: orElse_def split: option.splits)
  let ?mid = "name (findStyle (styleId settings)) @ template1
     @ desc (findStyle (styleId settings)) @ template2
     @ (if colorTheme settings = [] then default_palette else colorTheme settings) @ template3
     @ orElse (visual_theme_keywords d) (ascii ''abstract concepts'')
     @ template4 @ orElse (title d) untitled @ template5 @ orElse (summary_context d) [] @ template6
     @ join [10] (map moduleLine (enumerate 0 (case modules d of None \<Rightarrow> [] | Some ms \<Rightarrow> ms)))
     @ template7 @ watermark settings"
  have "processRightBrain (Some d) settings = trim (10 # 82 # (r @ ?mid) @ 34 # [10, 32, 32])"
    by (simp add: processRightBrain_def Let_def t0 template8_text nl)
  also have "\<dots> = 82 # (r @ ?mid) @ [34]"
    by (rule trim_framed [OF w c e ws])
  finally show ?thesis
    by (simp add: t0 s) (simp add: orElse_def untitled_def split: option.splits)
qed


lemma includes_between:
  assumes "s = p @ l @ u @ r @ q" and "l = x @ t1" and "r = c # y"
  shows "str_includes s (t1 @ u @ [c])"
proof -
  have "s = (p @ x) @ (t1 @ u @ [c]) @ (y @ q)"
    using assms by simp
  then show ?thesis by (simp only: includes_mid)
qed

lemma template3_tail:
  "\<exists>x. template3 = x @ (ascii ''- Decorations: Simple 2D icons(flat style), subtle doodles related to '' @ [34])"
  unfolding template3_def by (rule exI, rule refl)

lemma template4_head: "\<exists>y. template4 = 34 # y"
  by (simp add: template4_def)

lemma template4_tail: "\<exists>x. template4 = x @ (ascii ''Title: '' @ [34])"
  unfolding template4_def by (simp only: append_assoc [symmetric]) (rule exI, rule refl)

lemma template5_head: "\<exists>y. template5 = 34 # y"
  by (simp add: template5_def)

lemma template5_tail: "\<exists>x. template5 = x @ (ascii ''Subtitle: '' @ [34])"
  unfolding template5_def by (simp only: append_assoc [symmetric]) (rule exI, rule refl)

lemma template6_head: "\<exists>y. template6 = 34 # y"
  by (simp add: template6_def)

lemma template6_tail: "\<exists>x. template6 = x @ ascii ''Modules:\<newline>''"
  unfolding template6_def by (simp only: append_assoc [symmetric]) (rule exI, rule refl)

lemma template7_head: "\<exists>y. template7 = 10 # y"
  by (simp add: template7_def ascii_def)


lemma default_title_shown:
  assumes "title d = None \<or> title d = Some []"
  shows "str_includes (processRightBrain (Some d) settings)
           ((ascii ''Title: '' @ [34]) @ [26410, 21629, 21517, 31508, 35760] @ [34])"
proof -
  from template4_tail obtain x where l: "template4 = x @ (ascii ''Title: '' @ [34])" ..
  from template5_head obtain y where r: "template5 = 34 # y" ..
  define p where "p = drop 1 template0 @ name (findStyle (styleId settings)) @ template1
     @ desc (findStyle (styleId settings)) @ template2
     @ (if colorTheme settings = [] then default_palette else colorTheme settings) @ template3
     @ (case visual_theme_keywords d of
          None \<Rightarrow> ascii ''abstract concepts''
        | Some k \<Rightarrow> if k = [] then ascii ''abstract concepts'' else k)"
  define q where "q = (case summary_context d of None \<Rightarrow> [] | Some s \<Rightarrow> s)
     @ template6
     @ join [10] (map moduleLine (enumerate 0 (case modules d of None \<Rightarrow> [] | Some ms \<Rightarrow> ms)))
     @ template7 @ watermark settings @ [34]"
  have "processRightBrain (Some d) settings
      = p @ template4 @ [26410, 21629, 21517, 31508, 35760] @ template5 @ q"
    using assms unfolding prompt_explicit p_def q_def by auto
  from includes_between [OF this l r] show ?thesis .
qed

lemma default_keywords_shown:
  assumes "visual_theme_keywords d = None \<or> visual_theme_keywords d = Some []"
  shows "str_includes (processRightBrain (Some d) settings)
           ((ascii ''- Decorations: Simple 2D icons(flat style), subtle doodles related to '' @ [34])
            @ ascii ''abstract concepts'' @ [34])"
proof -
  from template3_tail obtain x where l: "template3 = x
      @ (ascii ''- Decorations: Simple 2D icons(flat style), subtle doodles related to '' @ [34])" ..
  from template4_head obtain y where r: "template4 = 34 # y" ..
  define p where "p = drop 1 template0 @ name (findStyle (styleId settings)) @ template1
     @ desc (findStyle (styleId settings)) @ template2
     @ (if colorTheme settings = [] then default_palette else colorTheme settings)"
  define q where "q = (case title d of
          None \<Rightarrow> [26410, 21629, 21517, 31508, 35760]
        | Some t \<Rightarrow> if t = [] then [26410, 21629, 21517, 31508, 35760] else t)
     @ template5
     @ (case summary_context d of None \<Rightarrow> [] | Some s \<Rightarrow> s)
     @ template6
     @ join [10] (map moduleLine (enumerate 0 (case modules d of None \<Rightarrow> [] | Some ms \<Rightarrow> ms)))
     @ template7 @ watermark settings @ [34]"
  have "processRightBrain (Some d) settings
      = p @ template3 @ ascii ''abstract concepts'' @ template4 @ q"
    using assms unfolding prompt_explicit p_def q_def by auto
  from includes_between [OF this l r] show ?thesis .
qed

lemma default_summary_shown:
  assumes "summary_context d = None \<or> summary_context d = Some []"
  shows "str_includes (processRightBrain (Some d) settings)
           ((ascii ''Subtitle: '' @ [34]) @ [] @ [34])"
proof -
  from template5_tail obtain x where l: "template5 = x @ (ascii ''Subtitle: '' @ [34])" ..
  from template6_head obtain y where r: "template6 = 34 # y" ..
  define p where "p = drop 1 template0 @ name (findStyle (styleId settings)) @ template1
     @ desc (findStyle (styleId settings)) @ template2
     @ (if colorTheme settings = [] then default_palette else colorTheme settings) @ template3
     @ (case visual_theme_keywords d of
          None \<Rightarrow> ascii ''abstract concepts''
        | Some k \<Rightarrow> if k = [] then ascii ''abstract concepts'' else k)
     @ template4
     @ (case title d of
          None \<Rightarrow> [26410, 21629, 21517, 31508, 35760]
        | Some t \<Rightarrow> if t = [] then [26410, 21629, 21517, 31508, 35760] else t)"
  define q where "q =
     join [10] (map moduleLine (enumerate 0 (case modules d of None \<Rightarrow> [] | Some ms \<Rightarrow> ms)))
     @ template7 @ watermark settings @ [34]"
  have "processRightBrain (Some d) settings = p @ template5 @ [] @ template6 @ q"
    using assms unfolding prompt_explicit p_def q_def by auto
  from includes_between [OF this l r] show ?thesis .
qed

lemma default_modules_shown:
  assumes "modules d = None \<or> modules d = Some []"
  shows "str_includes (processRightBrain (Some d) settings)
           (ascii ''Modules:\<newline>'' @ [] @ [10])"
proof -
  from template6_tail obtain x where l: "template6 = x @ ascii ''Modules:\<newline>''" ..
  from template7_head obtain y where r: "template7 = 10 # y" ..
  define p where "p = drop 1 template0 @ name (findStyle (styleId settings)) @ template1
     @ desc (findStyle (styleId settings)) @ template2
     @ (if colorTheme settings = [] then default_palette else colorTheme settings) @ template3
     @ (case visual_theme_keywords d of
          None \<Rightarrow> ascii ''abstract concepts''
        | Some k \<Rightarrow> if k = [] then ascii ''abstract concepts'' else k)
     @ template4
     @ (case title d of
          None \<Rightarrow> [26410, 21629, 21517, 31508, 35760]
        | Some t \<Rightarrow> if t = [] then [26410, 21629, 21517, 31508, 35760] else t)
     @ template5
     @ (case summary_context d of None \<Rightarrow> [] | Some s \<Rightarrow> s)"
  have "processRightBrain (Some d) settings
      = p @ template6 @ [] @ template7 @ watermark settings @ [34]"
    using assms unfolding prompt_explicit p_def by auto
  from includes_between [OF this l r] show ?thesis .
qed

lemma moduleLine_explicit:
  "moduleLine (i, m) =
     showNat (i + 1) @ ascii ''. Heading: '' @ [34]
     @ (case m of None \<Rightarrow> [] | Some c \<Rightarrow> (case heading c of None \<Rightarrow> [] | Some h \<Rightarrow> h))
     @ [34, 10] @ ascii ''   Content: '' @ [34]
     @ (case m of None \<Rightarrow> [] | Some c \<Rightarrow> (case content c of None \<Rightarrow> [] | Some t \<Rightarrow> t))
     @ [34]"
  by (simp add: moduleLine_def orElse_def ascii_def split: option.splits)

section \<open>Claims on the synthesis of the prompt\<close>

text \<open>
  C7. \<^verbatim>\<open>processRightBrain\<close> is a function of the outline and the settings and of nothing
  else, so two evaluations on the same pair give the same string. For every outline it
  returns the template filled in, never the error string: the text after the leading line
  break, with the style's name and description, the palette, the keywords, the title, the
  summary, the numbered module lines and the watermark in their places, ending with the
  quote that closes the watermark. A title that is missing or empty is replaced by the
  default title U+672A U+547D U+540D U+7B14 U+8BB0, so the prompt reads \<^verbatim>\<open>Title: "\<close>,
  the default title, \<^verbatim>\<open>"\<close>; keywords that are missing or empty are replaced by
  \<^verbatim>\<open>abstract concepts\<close>, which the decorations clause then quotes; a summary that is
  missing or empty gives \<^verbatim>\<open>Subtitle: ""\<close>; modules that are missing or empty give no
  module line after \<^verbatim>\<open>Modules:\<close>; and a module that is null, or whose heading or content
  is missing, gives a line with empty quotes.
\<close>

theorem C7_prompt_pure_with_defaults:
  "(data = data' \<and> settings = settings' \<longrightarrow>
      processRightBrain data settings = processRightBrain data' settings')
   \<and> processRightBrain (Some d) settings =
       drop 1 template0 @ name (findStyle (styleId settings)) @ template1
       @ desc (findStyle (styleId settings)) @ template2
       @ (if colorTheme settings = [] then default_palette else colorTheme settings) @ template3
       @ (case visual_theme_keywords d of
            None \<Rightarrow> ascii ''abstract concepts''
          | Some k \<Rightarrow> if k = [] then ascii ''abstract concepts'' else k)
       @ template4
       @ (case title d of
            None \<Rightarrow> [26410, 21629, 21517, 31508, 35760]
          | Some t \<Rightarrow> if t = [] then [26410, 21629, 21517, 31508, 35760] else t)
       @ template5
       @ (case summary_context d of None \<Rightarrow> [] | Some s \<Rightarrow> s)
       @ template6
       @ join [10] (map moduleLine (enumerate 0 (case modules d of None \<Rightarrow> [] | Some ms \<Rightarrow> ms)))
       @ template7 @ watermark settings @ [34]
   \<and> moduleLine (i, m) =
       showNat (i + 1) @ ascii ''. Heading: '' @ [34]
       @ (case m of None \<Rightarrow> [] | Some c \<Rightarrow> (case heading c of None \<Rightarrow> [] | Some h \<Rightarrow> h))
       @ [34, 10] @ ascii ''   Content: '' @ [34]
       @ (case m of None \<Rightarrow> [] | Some c \<Rightarrow> (case content c of None \<Rightarrow> [] | Some t \<Rightarrow> t))
       @ [34]
   \<and> (title d = None \<or> title d = Some [] \<longrightarrow>
        str_includes (processRightBrain (Some d) settings)
          (ascii ''Title: '' @ [34] @ [26410, 21629, 21517, 31508, 35760] @ [34]))
   \<and> (visual_theme_keywords d = None \<or> visual_theme_keywords d = Some [] \<longrightarrow>
        str_includes (processRightBrain (Some d) settings)
          (ascii ''- Decorations: Simple 2D icons(flat style), subtle doodles related to '' @ [34]
           @ ascii ''abstract concepts'' @ [34]))
   \<and> (summary_context d = None \<or> summary_context d = Some [] \<longrightarrow>
        str_includes (processRightBrain (Some d) settings) (ascii ''Subtitle: '' @ [34, 34]))
   \<and> (modules d = None \<or> modules d = Some [] \<longrightarrow>
        str_includes (processRightBrain (Some d) settings) (ascii ''Modules:\<newline>'' @ [10]))
   \<and> processRightBrain (Some (d\<lparr>title := None\<rparr>)) settings
       = processRightBrain (Some (d\<lparr>title := Some untitled\<rparr>)) settings
   \<and> processRightBrain (Some (d\<lparr>title := Some []\<rparr>)) settings
       = processRightBrain (Some (d\<lparr>title := Some untitled\<rparr>)) settings
   \<and> processRightBrain (Some (d\<lparr>summary_context := None\<rparr>)) settings
       = processRightBrain (Some (d\<lparr>summary_context := Some []\<rparr>)) settings
   \<and> processRightBrain (Some (d\<lparr>visual_theme_keywords := None\<rparr>)) settings
       = processRightBrain (Some (d\<lparr>visual_theme_keywords := Some (ascii ''abstract concepts'')\<rparr>)) settings
   \<and> processRightBrain (Some (d\<lparr>visual_theme_keywords := Some []\<rparr>)) settings
       = processRightBrain (Some (d\<lparr>visual_theme_keywords := Some (ascii ''abstract concepts'')\<rparr>)) settings
   \<and> processRightBrain (Some (d\<lparr>modules := None\<rparr>)) settings
       = processRightBrain (Some (d\<lparr>modules := Some []\<rparr>)) settings
   \<and> moduleLine (i, None) = moduleLine (i, Some \<lparr>module_id = [], heading = Some [], content = Some []\<rparr>)
   \<and> moduleLine (i, Some (c\<lparr>heading := None, content := None\<rparr>))
       = moduleLine (i, Some (c\<lparr>heading := Some [], content := Some []\<rparr>))
   \<and> processRightBrain (Some d) settings \<noteq> noData"
proof -
  have equal: "processRightBrain (Some (d\<lparr>title := None\<rparr>)) settings
       = processRightBrain (Some (d\<lparr>title := Some untitled\<rparr>)) settings
   \<and> processRightBrain (Some (d\<lparr>title := Some []\<rparr>)) settings
       = processRightBrain (Some (d\<lparr>title := Some untitled\<rparr>)) settings
   \<and> processRightBrain (Some (d\<lparr>summary_context := None\<rparr>)) settings
       = processRightBrain (Some (d\<lparr>summary_context := Some []\<rparr>)) settings
   \<and> processRightBrain (Some (d\<lparr>visual_theme_keywords := None\<rparr>)) settings
       = processRightBrain (Some (d\<lparr>visual_theme_keywords := Some (ascii ''abstract concepts'')\<rparr>)) settings
   \<and> processRightBrain (Some (d\<lparr>visual_theme_keywords := Some []\<rparr>)) settings
       = processRightBrain (Some (d\<lparr>visual_theme_keywords := Some (ascii ''abstract concepts'')\<rparr>)) settings
   \<and> processRightBrain (Some (d\<lparr>modules := None\<rparr>)) settings
       = processRightBrain (Some (d\<lparr>modules := Some []\<rparr>)) settings
   \<and> moduleLine (i, None) = moduleLine (i, Some \<lparr>module_id = [], heading = Some [], content = Some []\<rparr>)
   \<and> moduleLine (i, Some (c\<lparr>heading := None, content := None\<rparr>))
       = moduleLine (i, Some (c\<lparr>heading := Some [], content := Some []\<rparr>))"
    by (simp add: processRightBrain_def orElse_default untitled_nonempty keywords_nonempty
          moduleLine_def)
  have shown: "(title d = None \<or> title d = Some [] \<longrightarrow>
        str_includes (processRightBrain (Some d) settings)
          (ascii ''Title: '' @ [34] @ [26410, 21629, 21517, 31508, 35760] @ [34]))
   \<and> (visual_theme_keywords d = None \<or> visual_theme_keywords d = Some [] \<longrightarrow>
        str_includes (processRightBrain (Some d) settings)
          (ascii ''- Decorations: Simple 2D icons(flat style), subtle doodles related to '' @ [34]
           @ ascii ''abstract concepts'' @ [34]))
   \<and> (summary_context d = None \<or> summary_context d = Some [] \<longrightarrow>
        str_includes (processRightBrain (Some d) settings) (ascii ''Subtitle: '' @ [34, 34]))
   \<and> (modules d = None \<or> modules d = Some [] \<longrightarrow>
        str_includes (processRightBrain (Some d) settings) (ascii ''Modules:\<newline>'' @ [10]))"
    using default_title_shown [of d settings] default_keywords_shown [of d settings]
      default_summary_shown [of d settings] default_modules_shown [of d settings]
    by simp
  from equal shown prompt_explicit [of d settings] moduleLine_explicit [of i m]
    prompt_not_noData [of d settings]
  show ?thesis by blast
qed

theorem C7_prompt_pure_with_defaults_witness:
  "str_includes (processRightBrain (Some (sampleOutline\<lparr>title := None\<rparr>)) sampleSettings)
     (ascii ''Title: '' @ [34] @ [26410, 21629, 21517, 31508, 35760] @ [34])
   \<and> str_includes
       (processRightBrain (Some (sampleOutline\<lparr>visual_theme_keywords := Some []\<rparr>)) sampleSettings)
       (ascii ''- Decorations: Simple 2D icons(flat style), subtle doodles related to '' @ [34]
        @ ascii ''abstract concepts'' @ [34])
   \<and> str_includes (processRightBrain (Some (sampleOutline\<lparr>summary_context := None\<rparr>)) sampleSettings)
       (ascii ''Subtitle: '' @ [34, 34])
   \<and> str_includes (processRightBrain (Some (sampleOutline\<lparr>modules := None\<rparr>)) sampleSettings)
       (ascii ''Modules:\<newline>'' @ [10])
   \<and> moduleLine (0, None) = ascii ''1. Heading: '' @ [34, 34, 10] @ ascii ''   Content: '' @ [34, 34]
   \<and> processRightBrain (Some (sampleOutline\<lparr>title := None\<rparr>)) sampleSettings
       = processRightBrain (Some (sampleOutline\<lparr>title := Some untitled\<rparr>)) sampleSettings
   \<and> processRightBrain (Some sampleOutline) sampleSettings \<noteq> noData"
proof -
  note c7 = C7_prompt_pure_with_defaults [of _ _ sampleSettings sampleSettings _ 0 None
      "\<lparr>module_id = [], heading = None, content = None\<rparr>"]
  have t: "title (sampleOutline\<lparr>title := None\<rparr>) = None"
    and k: "visual_theme_keywords (sampleOutline\<lparr>visual_theme_keywords := Some []\<rparr>) = Some []"
    and u: "summary_context (sampleOutline\<lparr>summary_context := None\<rparr>) = None"
    and m: "modules (sampleOutline\<lparr>modules := None\<rparr>) = None"
    by simp_all
  have 1: "str_includes (processRightBrain (Some (sampleOutline\<lparr>title := None\<rparr>)) sampleSettings)
     (ascii ''Title: '' @ [34] @ [26410, 21629, 21517, 31508, 35760] @ [34])"
    using c7 [of "Some sampleOutline" "Some sampleOutline" "sampleOutline\<lparr>title := None\<rparr>"] t
    by blast
  have 2: "str_includes
       (processRightBrain (Some (sampleOutline\<lparr>visual_theme_keywords := Some []\<rparr>)) sampleSettings)
       (ascii ''- Decorations: Simple 2D icons(flat style), subtle doodles related to '' @ [34]
        @ ascii ''abstract concepts'' @ [34])"
    using c7 [of "Some sampleOutline" "Some sampleOutline"
        "sampleOutline\<lparr>visual_theme_keywords := Some []\<rparr>"] k
    by blast
  have 3: "str_includes (processRightBrain (Some (sampleOutline\<lparr>summary_context := None\<rparr>)) sampleSettings)
       (ascii ''Subtitle: '' @ [34, 34])"
    using c7 [of "Some sampleOutline" "Some sampleOutline"
        "sampleOutline\<lparr>summary_context := None\<rparr>"] u
    by blast
  have 4: "str_includes (processRightBrain (Some (sampleOutline\<lparr>modules := None\<rparr>)) sampleSettings)
       (ascii ''Modules:\<newline>'' @ [10])"
    using c7 [of "Some sampleOutline" "Some sampleOutline" "sampleOutline\<lparr>modules := None\<rparr>"] m
    by blast
  note plain = c7 [of "Some sampleOutline" "Some sampleOutline" sampleOutline]
  have 5: "moduleLine (0, None)
      = ascii ''1. Heading: '' @ [34, 34, 10] @ ascii ''   Content: '' @ [34, 34]"
    using plain [THEN conjunct2, THEN conjunct2, THEN conjunct1]
    by (simp add: ascii_def)
  have 6: "processRightBrain (Some (sampleOutline\<lparr>title := None\<rparr>)) sampleSettings
       = processRightBrain (Some (sampleOutline\<lparr>title := Some untitled\<rparr>)) sampleSettings"
    by (rule plain [THEN conjunct2, THEN conjunct2, THEN conjunct2, THEN conjunct2, THEN conjunct2, THEN conjunct2, THEN conjunct2, THEN conjunct1])
  have 7: "processRightBrain (Some sampleOutline) sampleSettings \<noteq> noData"
    by (rule plain [THEN conjunct2, THEN conjunct2, THEN conjunct2, THEN conjunct2, THEN conjunct2, THEN conjunct2, THEN conjunct2, THEN conjunct2, THEN conjunct2, THEN conjunct2, THEN conjunct2, THEN conjunct2, THEN conjunct2, THEN conjunct2, THEN conjunct2])
  from 1 2 3 4 5 6 7 show ?thesis by (intro conjI)
qed

text \<open>
  C10. \<^verbatim>\<open>processRightBrain\<close> returns the string \<^verbatim>\<open>Error: No data provided\<close> when the
  outline is null or undefined, and when the style id of the settings is the id of no
  style in the table it uses the first style of the table, \<^verbatim>\<open>healing\<close>: the prompt is
  the one that the id \<^verbatim>\<open>healing\<close> gives.
\<close>

theorem C10_no_data_and_unknown_style:
  "processRightBrain None settings = ascii ''Error: No data provided''
   \<and> ((\<forall>s \<in> set STYLES. style_id s \<noteq> styleId settings) \<longrightarrow>
        findStyle (styleId settings) = STYLES ! 0
        \<and> style_id (STYLES ! 0) = ascii ''healing''
        \<and> processRightBrain (Some d) settings
            = processRightBrain (Some d) (settings\<lparr>styleId := ascii ''healing''\<rparr>))"
proof -
  have first: "STYLES ! 0 = hd STYLES" "style_id (hd STYLES) = ascii ''healing''"
    by (simp_all add: STYLES_def)
  have healing: "findStyle (ascii ''healing'') = hd STYLES"
    by (simp add: findStyle_def STYLES_def)
  have unknown: "findStyle (styleId settings) = hd STYLES"
    if "\<forall>s \<in> set STYLES. style_id s \<noteq> styleId settings"
  proof -
    from that have "find (\<lambda>s. style_id s = styleId settings) STYLES = None"
      by (simp add: find_None_iff)
    then show ?thesis by (simp add: findStyle_def)
  qed
  show ?thesis
    using first healing unknown
    by (simp add: processRightBrain_def noData_def)
qed

theorem C10_no_data_and_unknown_style_witness:
  "processRightBrain None sampleSettings = ascii ''Error: No data provided''
   \<and> styleId sampleSettings = ascii ''neon''
   \<and> name (findStyle (styleId sampleSettings))
       = [21487, 29233, 25163, 24080] @ ascii '' (Cute Journal)''
   \<and> processRightBrain (Some sampleOutline) sampleSettings
       = processRightBrain (Some sampleOutline) (sampleSettings\<lparr>styleId := ascii ''healing''\<rparr>)"
proof -
  have u: "\<forall>s \<in> set STYLES. style_id s \<noteq> styleId sampleSettings"
    by (simp add: STYLES_def sampleSettings_def ascii_def)
  have n: "name (STYLES ! 0) = [21487, 29233, 25163, 24080] @ ascii '' (Cute Journal)''"
    by (simp add: STYLES_def)
  have i: "styleId sampleSettings = ascii ''neon''"
    by (simp add: sampleSettings_def)
  from C10_no_data_and_unknown_style [of sampleSettings sampleOutline] u n i
  show ?thesis by simp
qed

end
